theory Spec2Isabelle
  imports Complex_Main "HOL-Library.Log_Nat"
begin

section \<open>Python values used by the service\<close>

subsection \<open>Floats\<close>

text \<open>
  A Python \<^verbatim>\<open>float\<close> is an IEEE-754 binary64 value.  A finite one is kept as the
  rational number it denotes; the two infinities and NaN are separate values.  The sign
  of zero is not kept: no comparison of the service can tell \<^verbatim>\<open>-0.0\<close> from \<^verbatim>\<open>0.0\<close>.
\<close>

datatype pyfloat = Fin rat | PInf | NInf | NaN

definition pow2 :: "int \<Rightarrow> rat" where
  "pow2 e = (if 0 \<le> e then 2 ^ nat e else 1 / 2 ^ nat (- e))"

text \<open>The binary exponent of a positive rational: \<open>pow2 (ilog2 x) \<le> x < pow2 (ilog2 x + 1)\<close>.\<close>

definition ilog2 :: "rat \<Rightarrow> int" where
  "ilog2 x = (let d = bitlen (fst (quotient_of x)) - bitlen (snd (quotient_of x))
              in if pow2 d \<le> x then d else d - 1)"

definition round_half_even :: "rat \<Rightarrow> int" where
  "round_half_even q = (let n = \<lfloor>q\<rfloor>; r = q - of_int n
     in if r < 1 / 2 then n else if 1 / 2 < r then n + 1 else if even n then n else n + 1)"

text \<open>
  Rounding of an exact value to the nearest binary64 value, ties to even: 53 significant
  bits, exponents down to \<open>-1022\<close> (below that the spacing stays \<open>2 ^ -1074\<close>), and an
  infinity from \<open>2 ^ 1024\<close> on.
\<close>

definition round_double :: "rat \<Rightarrow> pyfloat" where
  "round_double x = (if x = 0 then Fin 0 else
     let e = max (ilog2 \<bar>x\<bar>) (- 1022);
         u = pow2 (e - 52);
         y = of_int (round_half_even (x / u)) * u
     in if pow2 1024 \<le> \<bar>y\<bar> then (if 0 < x then PInf else NInf) else Fin y)"

fun feq :: "pyfloat \<Rightarrow> pyfloat \<Rightarrow> bool" where
  "feq (Fin x) (Fin y) = (x = y)"
| "feq PInf PInf = True"
| "feq NInf NInf = True"
| "feq _ _ = False"

fun fle :: "pyfloat \<Rightarrow> pyfloat \<Rightarrow> bool" where
  "fle NaN _ = False"
| "fle _ NaN = False"
| "fle NInf _ = True"
| "fle _ PInf = True"
| "fle (Fin x) (Fin y) = (x \<le> y)"
| "fle _ _ = False"

fun isinf :: "pyfloat \<Rightarrow> bool" where
  "isinf PInf = True"
| "isinf NInf = True"
| "isinf _ = False"

fun fabs :: "pyfloat \<Rightarrow> pyfloat" where
  "fabs (Fin x) = Fin \<bar>x\<bar>"
| "fabs NInf = PInf"
| "fabs a = a"

fun fsub :: "pyfloat \<Rightarrow> pyfloat \<Rightarrow> pyfloat" where
  "fsub NaN _ = NaN"
| "fsub _ NaN = NaN"
| "fsub PInf PInf = NaN"
| "fsub NInf NInf = NaN"
| "fsub PInf _ = PInf"
| "fsub NInf _ = NInf"
| "fsub _ PInf = NInf"
| "fsub _ NInf = PInf"
| "fsub (Fin x) (Fin y) = round_double (x - y)"

fun fmul :: "pyfloat \<Rightarrow> pyfloat \<Rightarrow> pyfloat" where
  "fmul (Fin x) (Fin y) = round_double (x * y)"
| "fmul NaN _ = NaN"
| "fmul _ NaN = NaN"
| "fmul (Fin x) b = (if x = 0 then NaN else if 0 < x then b else (if b = PInf then NInf else PInf))"
| "fmul a (Fin y) = (if y = 0 then NaN else if 0 < y then a else (if a = PInf then NInf else PInf))"
| "fmul a b = (if a = b then PInf else NInf)"

text \<open>
  \<^verbatim>\<open>math.isclose(a, b, rel_tol, abs_tol)\<close> as CPython computes it: equal values are
  close, an infinity is close only to itself, and otherwise the rounded difference is
  compared with the rounded relative tolerances and with the absolute one.
\<close>

definition isclose :: "pyfloat \<Rightarrow> pyfloat \<Rightarrow> pyfloat \<Rightarrow> pyfloat \<Rightarrow> bool" where
  "isclose a b rel_tol abs_tol =
     (if feq a b then True
      else if isinf a \<or> isinf b then False
      else let diff = fabs (fsub b a)
           in fle diff (fabs (fmul rel_tol b)) \<or> fle diff (fabs (fmul rel_tol a))
              \<or> fle diff abs_tol)"

text \<open>
  The float of the literal \<^verbatim>\<open>1e-9\<close>, which is also the default \<^verbatim>\<open>rel_tol\<close>; the
  default \<^verbatim>\<open>abs_tol\<close> is \<^verbatim>\<open>0.0\<close>.
\<close>

definition tol_1e9 :: pyfloat where
  "tol_1e9 = round_double (1 / 1000000000)"

subsection \<open>Exceptions\<close>

datatype error =
  ValueError | TypeError | KeyError | OverflowError | AttributeError
  | StatisticsError | ZeroDivisionError

definition bindE :: "error + 'a \<Rightarrow> ('a \<Rightarrow> error + 'b) \<Rightarrow> error + 'b" where
  "bindE m f = (case m of Inl e \<Rightarrow> Inl e | Inr x \<Rightarrow> f x)"

fun mapE :: "('a \<Rightarrow> error + 'b) \<Rightarrow> 'a list \<Rightarrow> error + 'b list" where
  "mapE f [] = Inr []"
| "mapE f (x # xs) = bindE (f x) (\<lambda>y. bindE (mapE f xs) (\<lambda>ys. Inr (y # ys)))"

text \<open>
  Conversions to \<^verbatim>\<open>float\<close>: of an exact value (an \<^verbatim>\<open>int\<close>, or a \<^verbatim>\<open>Fraction\<close>)
  the nearest float, and \<^verbatim>\<open>OverflowError\<close> where that is an infinity.  The true division
  \<^verbatim>\<open>a / b\<close> of two ints is correctly rounded in the same way.
\<close>

definition float_of_rat :: "rat \<Rightarrow> error + pyfloat" where
  "float_of_rat x = (case round_double x of Fin y \<Rightarrow> Inr (Fin y) | _ \<Rightarrow> Inl OverflowError)"

definition float_of_int :: "int \<Rightarrow> error + pyfloat" where
  "float_of_int n = float_of_rat (of_int n)"

definition py_truediv :: "int \<Rightarrow> int \<Rightarrow> error + pyfloat" where
  "py_truediv a b = (if b = 0 then Inl ZeroDivisionError else float_of_rat (of_int a / of_int b))"

text \<open>A number that is an \<^verbatim>\<open>int\<close> or a \<^verbatim>\<open>float\<close>, and \<^verbatim>\<open>float(x)\<close> on it.\<close>

datatype pynum = NInt int | NFloat pyfloat

fun py_float_num :: "pynum \<Rightarrow> error + pyfloat" where
  "py_float_num (NInt n) = float_of_int n"
| "py_float_num (NFloat f) = Inr f"

section \<open>The statistics engine\<close>

text \<open>
  The built-ins \<^verbatim>\<open>min\<close> and \<^verbatim>\<open>max\<close> raise \<^verbatim>\<open>ValueError\<close> on an empty sequence.
\<close>

definition py_min :: "'a::linorder list \<Rightarrow> error + 'a" where
  "py_min xs = (case xs of [] \<Rightarrow> Inl ValueError | x # ys \<Rightarrow> Inr (fold min ys x))"

definition py_max :: "'a::linorder list \<Rightarrow> error + 'a" where
  "py_max xs = (case xs of [] \<Rightarrow> Inl ValueError | x # ys \<Rightarrow> Inr (fold max ys x))"

text \<open>
  \<^verbatim>\<open>statistics.mean\<close> on ints sums exactly; an integral mean is returned as an
  \<^verbatim>\<open>int\<close>, any other as the float nearest to the exact fraction.
\<close>

definition statistics_mean :: "int list \<Rightarrow> error + pynum" where
  "statistics_mean xs =
     (if xs = [] then Inl StatisticsError
      else if int (length xs) dvd sum_list xs then Inr (NInt (sum_list xs div int (length xs)))
      else bindE (float_of_rat (of_int (sum_list xs) / of_nat (length xs))) (\<lambda>f. Inr (NFloat f)))"

text \<open>
  \<^verbatim>\<open>statistics.median\<close> sorts; the middle element when the count is odd, and
  \<^verbatim>\<open>(data[i - 1] + data[i]) / 2\<close> with \<^verbatim>\<open>i = n // 2\<close> when it is even.
\<close>

definition statistics_median :: "int list \<Rightarrow> error + pynum" where
  "statistics_median xs =
     (let data = sort xs; n = length data
      in if n = 0 then Inl StatisticsError
         else if n mod 2 = 1 then Inr (NInt (data ! (n div 2)))
         else let i = n div 2
              in bindE (py_truediv (data ! (i - 1) + data ! i) 2) (\<lambda>f. Inr (NFloat f)))"

text \<open>
  \<^verbatim>\<open>Counter(xs)\<close>: a dictionary from each distinct element to its number of
  occurrences, in order of first occurrence.
\<close>

fun counter_add :: "'a \<Rightarrow> ('a \<times> nat) list \<Rightarrow> ('a \<times> nat) list" where
  "counter_add x [] = [(x, 1)]"
| "counter_add x ((k, c) # kcs) =
     (if k = x then (k, Suc c) # kcs else (k, c) # counter_add x kcs)"

definition Counter :: "'a list \<Rightarrow> ('a \<times> nat) list" where
  "Counter xs = fold counter_add xs []"

text \<open>The values a statistics snapshot (a dictionary with string keys) holds.\<close>

datatype pyval = PNone | PInt int | PFloat pyfloat | PFloats "pyfloat list"

type_synonym snapshot = "(string \<times> pyval) list"

definition calculate_statistics :: "int list \<Rightarrow> error + snapshot" where
  "calculate_statistics numbers_y =
     (if numbers_y = [] then
        Inr [(''count'', PInt 0), (''minimum'', PNone), (''maximum'', PNone),
             (''mean'', PNone), (''median'', PNone), (''mode'', PNone)]
      else
        let count = int (length numbers_y) in
        bindE (py_min numbers_y) (\<lambda>minimum.
        bindE (py_max numbers_y) (\<lambda>maximum.
        bindE (statistics_mean numbers_y) (\<lambda>mean.
        bindE (statistics_median numbers_y) (\<lambda>median.
        let counts = Counter numbers_y in
        bindE (py_max (map snd counts)) (\<lambda>max_freq.
        let modes = sort (map fst (filter (\<lambda>(num, freq). freq = max_freq) counts)) in
        bindE (float_of_int minimum) (\<lambda>fminimum.
        bindE (float_of_int maximum) (\<lambda>fmaximum.
        bindE (py_float_num mean) (\<lambda>fmean.
        bindE (py_float_num median) (\<lambda>fmedian.
        bindE (mapE float_of_int modes) (\<lambda>fmodes.
        Inr [(''count'', PInt count), (''minimum'', PFloat fminimum),
             (''maximum'', PFloat fmaximum), (''mean'', PFloat fmean),
             (''median'', PFloat fmedian), (''modes'', PFloats fmodes)])))))))))))"

text \<open>Subscription \<^verbatim>\<open>d[k]\<close> of a dictionary raises \<^verbatim>\<open>KeyError\<close> on a missing key.\<close>

definition getitem :: "(string \<times> 'v) list \<Rightarrow> string \<Rightarrow> error + 'v" where
  "getitem d k = (case map_of d k of None \<Rightarrow> Inl KeyError | Some v \<Rightarrow> Inr v)"

section \<open>Requests and the challenge store\<close>

text \<open>
  A parsed JSON value, as \<^verbatim>\<open>request.get_json()\<close> returns it: \<^verbatim>\<open>None\<close>, a bool, an
  unbounded int, a float (the parser accepts \<^verbatim>\<open>NaN\<close> and \<^verbatim>\<open>Infinity\<close>), a string,
  a list or a dictionary (keys in insertion order, each key once).
\<close>

datatype json =
  JNull | JBool bool | JInt int | JFloat pyfloat | JStr string
  | JArr "json list" | JObj "(string \<times> json) list"

text \<open>Truth value of an object, as \<^verbatim>\<open>not x\<close> and \<^verbatim>\<open>if x\<close> test it.\<close>

fun truthy :: "json \<Rightarrow> bool" where
  "truthy JNull = False"
| "truthy (JBool b) = b"
| "truthy (JInt n) = (n \<noteq> 0)"
| "truthy (JFloat f) = (f \<noteq> Fin 0)"
| "truthy (JStr s) = (s \<noteq> [])"
| "truthy (JArr xs) = (xs \<noteq> [])"
| "truthy (JObj kvs) = (kvs \<noteq> [])"

text \<open>\<^verbatim>\<open>d.get(k)\<close>: the value, or \<^verbatim>\<open>None\<close> for a missing key.\<close>

definition dict_get :: "(string \<times> json) list \<Rightarrow> string \<Rightarrow> json" where
  "dict_get d k = (case map_of d k of None \<Rightarrow> JNull | Some v \<Rightarrow> v)"

text \<open>
  \<^verbatim>\<open>float(x)\<close> on a request value.  How a string is read as a float is the parameter
  \<open>parse\<close> (\<open>None\<close> where the string is no float literal: \<^verbatim>\<open>ValueError\<close>).
\<close>

fun py_float :: "(string \<Rightarrow> pyfloat option) \<Rightarrow> json \<Rightarrow> error + pyfloat" where
  "py_float parse (JInt n) = float_of_int n"
| "py_float parse (JFloat f) = Inr f"
| "py_float parse (JBool b) = Inr (Fin (if b then 1 else 0))"
| "py_float parse (JStr s) = (case parse s of None \<Rightarrow> Inl ValueError | Some f \<Rightarrow> Inr f)"
| "py_float parse _ = Inl TypeError"

text \<open>
  Equality \<^verbatim>\<open>==\<close> of a request value and a snapshot value: numbers (bools among them)
  compare by their exact value, lists element by element, \<^verbatim>\<open>None\<close> equals itself, and
  values of different kinds differ.
\<close>

fun json_num :: "json \<Rightarrow> pyfloat option" where
  "json_num (JBool b) = Some (Fin (if b then 1 else 0))"
| "json_num (JInt n) = Some (Fin (of_int n))"
| "json_num (JFloat f) = Some f"
| "json_num _ = None"

fun pyval_num :: "pyval \<Rightarrow> pyfloat option" where
  "pyval_num (PInt n) = Some (Fin (of_int n))"
| "pyval_num (PFloat f) = Some f"
| "pyval_num _ = None"

fun py_eq :: "json \<Rightarrow> pyval \<Rightarrow> bool" where
  "py_eq JNull PNone = True"
| "py_eq (JArr xs) (PFloats fs) =
     list_all2 (\<lambda>x f. case json_num x of Some a \<Rightarrow> feq a f | None \<Rightarrow> False) xs fs"
| "py_eq j v = (case (json_num j, pyval_num v) of (Some a, Some b) \<Rightarrow> feq a b | _ \<Rightarrow> False)"

text \<open>
  \<^verbatim>\<open>math.isclose\<close> with a snapshot value as second argument, and membership
  \<^verbatim>\<open>a in v\<close> of a float in a snapshot value; both raise \<^verbatim>\<open>TypeError\<close> on \<^verbatim>\<open>None\<close>.
\<close>

fun py_isclose :: "pyfloat \<Rightarrow> pyval \<Rightarrow> pyfloat \<Rightarrow> pyfloat \<Rightarrow> error + bool" where
  "py_isclose a (PFloat b) rel_tol abs_tol = Inr (isclose a b rel_tol abs_tol)"
| "py_isclose a (PInt n) rel_tol abs_tol =
     bindE (float_of_int n) (\<lambda>b. Inr (isclose a b rel_tol abs_tol))"
| "py_isclose a _ rel_tol abs_tol = Inl TypeError"

fun py_in :: "pyfloat \<Rightarrow> pyval \<Rightarrow> error + bool" where
  "py_in a (PFloats fs) = Inr (list_ex (feq a) fs)"
| "py_in a _ = Inl TypeError"

text \<open>
  The format specification \<^verbatim>\<open>:.2f\<close> inside an f-string: fine on a number, a
  \<^verbatim>\<open>ValueError\<close> on a string, a \<^verbatim>\<open>TypeError\<close> on anything else.
\<close>

fun format_2f :: "json \<Rightarrow> error + unit" where
  "format_2f (JInt n) = bindE (float_of_int n) (\<lambda>_. Inr ())"
| "format_2f (JFloat f) = Inr ()"
| "format_2f (JBool b) = Inr ()"
| "format_2f (JStr s) = Inl ValueError"
| "format_2f _ = Inl TypeError"

fun format_2f_val :: "pyval \<Rightarrow> error + unit" where
  "format_2f_val (PInt n) = bindE (float_of_int n) (\<lambda>_. Inr ())"
| "format_2f_val (PFloat f) = Inr ()"
| "format_2f_val _ = Inl TypeError"

text \<open>
  One entry of \<^verbatim>\<open>challenges_data\<close>: the dictionary \<^verbatim>\<open>step1_get_challenge\<close> stores
  under the secret key, with its five fixed keys as fields.  The stored payload is
  \<open>None\<close> until a submission succeeds.
\<close>

record challenge =
  email :: string
  numbers_y :: "int list"
  correct_stats :: snapshot
  step2_attempts :: int
  last_correct_submission_data :: "json option"

type_synonym store = "string \<Rightarrow> challenge option"

definition MAX_STEP2_ATTEMPTS :: int where
  "MAX_STEP2_ATTEMPTS = 10"

text \<open>
  What a request gets back: a JSON body with a status code, or an exception that no
  handler of the service catches (the framework then answers with status 500).
\<close>

datatype outcome = Response json int | Unhandled error

definition message :: "string \<Rightarrow> json" where
  "message m = JObj [(''message'', JStr m)]"

section \<open>Issuing a challenge\<close>

text \<open>
  \<^verbatim>\<open>random.randint(a, b)\<close> draws an int \<open>N\<close> with \<open>a \<le> N \<le> b\<close>; here it is a
  function of the raw entropy \<open>r\<close> the generator consumes.
\<close>

definition randint :: "int \<Rightarrow> int \<Rightarrow> nat \<Rightarrow> int" where
  "randint a b r = a + int r mod (b - a + 1)"

text \<open>
  \<open>email_arg\<close> is \<^verbatim>\<open>request.args.get('email')\<close>, \<open>secret_key\<close> the fresh
  \<^verbatim>\<open>uuid.uuid4().hex\<close>, and \<open>rnd\<close> the entropy behind the successive
  \<^verbatim>\<open>random.randint\<close> calls.  The log line is not modelled.
\<close>

definition step1_get_challenge ::
    "string option \<Rightarrow> string \<Rightarrow> (nat \<Rightarrow> nat) \<Rightarrow> store \<Rightarrow> outcome \<times> store" where
  "step1_get_challenge email_arg secret_key rnd challenges_data =
     (case email_arg of
        None \<Rightarrow> (Response (JObj [(''error'', JStr ''Email parameter is required'')]) 400,
                 challenges_data)
      | Some e \<Rightarrow>
          if e = [] then
            (Response (JObj [(''error'', JStr ''Email parameter is required'')]) 400,
             challenges_data)
          else
            let num_elements = randint 5 15 (rnd 0);
                numbers = map (\<lambda>i. randint 1 100 (rnd (Suc i))) [0..<nat num_elements]
            in case calculate_statistics numbers of
                 Inl err \<Rightarrow> (Unhandled err, challenges_data)
               | Inr stats \<Rightarrow>
                   (Response (JObj [(''secret_key'', JStr secret_key),
                                    (''numbers'', JArr (map JInt numbers))]) 200,
                    challenges_data(secret_key \<mapsto>
                      \<lparr>email = e, numbers_y = numbers, correct_stats = stats,
                       step2_attempts = 0, last_correct_submission_data = None\<rparr>)))"

section \<open>Validating a submission\<close>

text \<open>
  The body of a request: \<open>Unparseable\<close> when \<^verbatim>\<open>request.get_json()\<close> raises, the parsed
  value otherwise.
\<close>

datatype request_body = Unparseable | Parsed json

text \<open>
  The \<^verbatim>\<open>try\<close> block: every exception in it is caught and answered with status 400.
  Only a dictionary has \<^verbatim>\<open>get\<close>; on any other value the call raises
  \<^verbatim>\<open>AttributeError\<close>.  The result is \<open>(data, secret_key, user_stats)\<close>.
\<close>

definition user_stats_of :: "(string \<times> json) list \<Rightarrow> (string \<times> json) list" where
  "user_stats_of d =
     [(''count'', dict_get d ''count''), (''minimum'', dict_get d ''minimum''),
      (''maximum'', dict_get d ''maximum''), (''mean'', dict_get d ''mean''),
      (''median'', dict_get d ''median''), (''mode'', dict_get d ''mode'')]"

definition read_request ::
    "request_body \<Rightarrow> outcome + (json \<times> json \<times> (string \<times> json) list)" where
  "read_request body =
     (case body of
        Unparseable \<Rightarrow> Inl (Response (message ''Please try again!!! (Malformed request)'') 400)
      | Parsed data \<Rightarrow>
          if \<not> truthy data then
            Inl (Response (message ''Please try again!!! (Invalid JSON)'') 400)
          else
            (case data of
               JObj d \<Rightarrow>
                 Inr (data, dict_get d ''secret_key'', user_stats_of d)
             | _ \<Rightarrow> Inl (Response (message ''Please try again!!! (Malformed request)'') 400)))"

text \<open>
  \<^verbatim>\<open>challenges_data.get(secret_key)\<close>: the keys of the store are strings, so a number
  finds nothing, and a list or a dictionary is unhashable (\<^verbatim>\<open>TypeError\<close>).  A found
  entry is a non-empty dictionary, so \<^verbatim>\<open>if not challenge_info\<close> turns away exactly the
  lookups that found nothing.
\<close>

fun challenges_get :: "store \<Rightarrow> json \<Rightarrow> error + (string \<times> challenge) option" where
  "challenges_get challenges_data (JStr k) = Inr (map_option (Pair k) (challenges_data k))"
| "challenges_get challenges_data (JArr xs) = Inl TypeError"
| "challenges_get challenges_data (JObj d) = Inl TypeError"
| "challenges_get challenges_data _ = Inr None"

text \<open>
  The comparison.  Its state is the pair of \<^verbatim>\<open>valid_submission\<close> and \<^verbatim>\<open>errors\<close>; of
  each appended description only the leading words are kept.  The six statements run in
  order, each on the state the previous one left.
\<close>

type_synonym verdict = "bool \<times> string list"

definition check_count :: "(string \<times> json) list \<Rightarrow> snapshot \<Rightarrow> verdict \<Rightarrow> error + verdict" where
  "check_count user_stats stats v =
     bindE (getitem user_stats ''count'') (\<lambda>u.
     bindE (getitem stats ''count'') (\<lambda>c.
     Inr (if \<not> py_eq u c then (False, snd v @ [''Count mismatch'']) else v)))"

definition check_minimum ::
    "(string \<Rightarrow> pyfloat option) \<Rightarrow> (string \<times> json) list \<Rightarrow> snapshot \<Rightarrow> verdict \<Rightarrow> error + verdict" where
  "check_minimum parse user_stats stats v =
     bindE (getitem user_stats ''minimum'') (\<lambda>u.
     bindE (py_float parse u) (\<lambda>a.
     bindE (getitem stats ''minimum'') (\<lambda>c.
     bindE (py_isclose a c tol_1e9 (Fin 0)) (\<lambda>close.
     Inr (if \<not> close then (False, snd v @ [''Minimum mismatch'']) else v)))))"

definition check_maximum ::
    "(string \<Rightarrow> pyfloat option) \<Rightarrow> (string \<times> json) list \<Rightarrow> snapshot \<Rightarrow> verdict \<Rightarrow> error + verdict" where
  "check_maximum parse user_stats stats v =
     bindE (getitem user_stats ''maximum'') (\<lambda>u.
     bindE (py_float parse u) (\<lambda>a.
     bindE (getitem stats ''maximum'') (\<lambda>c.
     bindE (py_isclose a c tol_1e9 (Fin 0)) (\<lambda>close.
     Inr (if \<not> close then (False, snd v @ [''Maximum mismatch'']) else v)))))"

text \<open>The description of a mean mismatch formats both values with \<^verbatim>\<open>:.2f\<close>.\<close>

definition check_mean ::
    "(string \<Rightarrow> pyfloat option) \<Rightarrow> (string \<times> json) list \<Rightarrow> snapshot \<Rightarrow> verdict \<Rightarrow> error + verdict" where
  "check_mean parse user_stats stats v =
     bindE (getitem user_stats ''mean'') (\<lambda>u.
     bindE (py_float parse u) (\<lambda>a.
     bindE (getitem stats ''mean'') (\<lambda>c.
     bindE (py_isclose a c tol_1e9 tol_1e9) (\<lambda>close.
     if \<not> close then
       bindE (format_2f_val c) (\<lambda>_.
       bindE (format_2f u) (\<lambda>_.
       Inr (False, snd v @ [''Mean mismatch''])))
     else Inr v))))"

definition check_median ::
    "(string \<Rightarrow> pyfloat option) \<Rightarrow> (string \<times> json) list \<Rightarrow> snapshot \<Rightarrow> verdict \<Rightarrow> error + verdict" where
  "check_median parse user_stats stats v =
     bindE (getitem user_stats ''median'') (\<lambda>u.
     bindE (py_float parse u) (\<lambda>a.
     bindE (getitem stats ''median'') (\<lambda>c.
     bindE (py_isclose a c tol_1e9 tol_1e9) (\<lambda>close.
     Inr (if \<not> close then (False, snd v @ [''Median mismatch'']) else v)))))"

definition check_mode ::
    "(string \<Rightarrow> pyfloat option) \<Rightarrow> (string \<times> json) list \<Rightarrow> snapshot \<Rightarrow> verdict \<Rightarrow> error + verdict" where
  "check_mode parse user_stats stats v =
     bindE (getitem user_stats ''mode'') (\<lambda>u.
     bindE (py_float parse u) (\<lambda>a.
     bindE (getitem stats ''modes'') (\<lambda>c.
     bindE (py_in a c) (\<lambda>found.
     Inr (if \<not> found then (False, snd v @ [''Mode mismatch'']) else v)))))"

definition validate ::
    "(string \<Rightarrow> pyfloat option) \<Rightarrow> (string \<times> json) list \<Rightarrow> snapshot \<Rightarrow> error + verdict" where
  "validate parse user_stats stats =
     bindE (check_count user_stats stats (True, [])) (\<lambda>v1.
     bindE (check_minimum parse user_stats stats v1) (\<lambda>v2.
     bindE (check_maximum parse user_stats stats v2) (\<lambda>v3.
     bindE (check_mean parse user_stats stats v3) (\<lambda>v4.
     bindE (check_median parse user_stats stats v4) (\<lambda>v5.
     check_mode parse user_stats stats v5)))))"

text \<open>
  The endpoint.  The attempt counter is written to the store before the comparison runs,
  so it stays incremented when the comparison raises.  The log lines are not modelled.
\<close>

definition step2_submit_statistics ::
    "(string \<Rightarrow> pyfloat option) \<Rightarrow> request_body \<Rightarrow> store \<Rightarrow> outcome \<times> store" where
  "step2_submit_statistics parse body challenges_data =
     (case read_request body of
        Inl resp \<Rightarrow> (resp, challenges_data)
      | Inr (data, secret_key, user_stats) \<Rightarrow>
          if \<not> truthy secret_key \<or> \<not> list_all (\<lambda>(k, v). v \<noteq> JNull) user_stats then
            (Response (message ''Please try again!!! (Missing fields)'') 400, challenges_data)
          else
            (case challenges_get challenges_data secret_key of
               Inl err \<Rightarrow> (Unhandled err, challenges_data)
             | Inr None \<Rightarrow>
                 (Response (message ''Please try again!!! (Invalid secret_key)'') 400,
                  challenges_data)
             | Inr (Some (key, challenge_info)) \<Rightarrow>
                 if MAX_STEP2_ATTEMPTS \<le> step2_attempts challenge_info then
                   (if (case last_correct_submission_data challenge_info of
                          None \<Rightarrow> False | Some d \<Rightarrow> truthy d)
                    then (Response (JObj [(''message'', JStr ''Your response has been submitted successfully''),
                                          (''note'', JStr ''Rate limit reached, but previous submission was correct.'')]) 200,
                          challenges_data)
                    else (Response (message ''Please try again!!! (Max attempts reached)'') 429,
                          challenges_data))
                 else
                   let attempted = challenge_info\<lparr>step2_attempts := step2_attempts challenge_info + 1\<rparr>;
                       counted = challenges_data(key \<mapsto> attempted)
                   in (case validate parse user_stats (correct_stats attempted) of
                         Inl err \<Rightarrow> (Unhandled err, counted)
                       | Inr (valid_submission, errors) \<Rightarrow>
                           if valid_submission then
                             (Response (message ''Your response has been submitted successfully'') 200,
                              counted(key \<mapsto> attempted\<lparr>last_correct_submission_data := Some data\<rparr>))
                           else
                             (Response (message ''Please try again!!!'') 400, counted))))"

section \<open>Notions the properties are stated with\<close>

text \<open>The six statistic fields of a submission.\<close>

definition stat_fields :: "string list" where
  "stat_fields = [''count'', ''minimum'', ''maximum'', ''mean'', ''median'', ''mode'']"

text \<open>
  A well-formed submission against the key \<open>k\<close>: a dictionary that names \<open>k\<close> (a
  non-empty string) as its \<^verbatim>\<open>secret_key\<close> and gives each statistic field a value
  other than \<^verbatim>\<open>None\<close>.
\<close>

definition well_formed :: "(string \<times> json) list \<Rightarrow> string \<Rightarrow> bool" where
  "well_formed d k \<longleftrightarrow>
     k \<noteq> [] \<and> dict_get d ''secret_key'' = JStr k
     \<and> list_all (\<lambda>f. dict_get d f \<noteq> JNull) stat_fields"

text \<open>
  A stored successful payload is a request body that passed \<^verbatim>\<open>if not data\<close>, hence
  a true value; \<open>payload_ok\<close> says so of one challenge.
\<close>

definition payload_ok :: "challenge \<Rightarrow> bool" where
  "payload_ok c \<longleftrightarrow>
     (case last_correct_submission_data c of None \<Rightarrow> True | Some p \<Rightarrow> truthy p)"

text \<open>The store of a fresh process, and a reader of strings that accepts none.\<close>

definition no_challenges :: store where
  "no_challenges = (\<lambda>k. None)"

definition parse_nothing :: "string \<Rightarrow> pyfloat option" where
  "parse_nothing s = None"

text \<open>An int that \<^verbatim>\<open>float\<close> converts without rounding.\<close>

definition exact_float :: "int \<Rightarrow> bool" where
  "exact_float n \<longleftrightarrow> float_of_int n = Inr (Fin (of_int n))"

text \<open>
  For the proofs about rounding: the exponent a value is rounded at, the spacing of the
  floats there, and the rounded value before the overflow test.
\<close>

definition dexp :: "rat \<Rightarrow> int" where
  "dexp x = max (ilog2 \<bar>x\<bar>) (- 1022)"

definition ulp :: "rat \<Rightarrow> rat" where
  "ulp x = pow2 (dexp x - 52)"

definition rdv :: "rat \<Rightarrow> rat" where
  "rdv x = of_int (round_half_even (x / ulp x)) * ulp x"

text \<open>
  A payload is correct for a snapshot when the comparison runs to its end with
  \<^verbatim>\<open>valid_submission\<close> still true, and incorrect when it runs to its end with
  \<^verbatim>\<open>valid_submission\<close> false.
\<close>

definition correct_payload ::
    "(string \<Rightarrow> pyfloat option) \<Rightarrow> (string \<times> json) list \<Rightarrow> snapshot \<Rightarrow> bool" where
  "correct_payload parse d stats =
     (case validate parse (user_stats_of d) stats of Inl err \<Rightarrow> False | Inr (ok, errs) \<Rightarrow> ok)"

definition incorrect_payload ::
    "(string \<Rightarrow> pyfloat option) \<Rightarrow> (string \<times> json) list \<Rightarrow> snapshot \<Rightarrow> bool" where
  "incorrect_payload parse d stats =
     (case validate parse (user_stats_of d) stats of Inl err \<Rightarrow> False | Inr (ok, errs) \<Rightarrow> \<not> ok)"

text \<open>Requests served one after the other: the answers in order, and the final store.\<close>

fun submit_all ::
    "(string \<Rightarrow> pyfloat option) \<Rightarrow> request_body list \<Rightarrow> store \<Rightarrow> outcome list \<times> store" where
  "submit_all parse [] s = ([], s)"
| "submit_all parse (b # bs) s =
     (let (r, s1) = step2_submit_statistics parse b s;
          (rs, s2) = submit_all parse bs s1
      in (r # rs, s2))"

text \<open>
  The example of the specification: the dataset \<^verbatim>\<open>[10, 20, 15, 20, 25]\<close>, its
  statistics, a challenge on it, and submissions that differ in \<^verbatim>\<open>mean\<close> and
  \<^verbatim>\<open>mode\<close>.
\<close>

definition example_stats :: snapshot where
  "example_stats =
     [(''count'', PInt 5), (''minimum'', PFloat (Fin 10)), (''maximum'', PFloat (Fin 25)),
      (''mean'', PFloat (Fin 18)), (''median'', PFloat (Fin 20)), (''modes'', PFloats [Fin 20])]"

definition example_challenge :: "int \<Rightarrow> json option \<Rightarrow> challenge" where
  "example_challenge n p =
     \<lparr>email = ''user@example.com'', numbers_y = [10, 20, 15, 20, 25],
      correct_stats = example_stats, step2_attempts = n, last_correct_submission_data = p\<rparr>"

definition example_payload :: "json \<Rightarrow> int \<Rightarrow> (string \<times> json) list" where
  "example_payload mean mode =
     [(''secret_key'', JStr ''k1''), (''count'', JInt 5), (''minimum'', JInt 10),
      (''maximum'', JInt 25), (''mean'', mean), (''median'', JInt 20), (''mode'', JInt mode)]"

text \<open>
  The snapshot of a non-empty dataset: the six entries of the second \<^verbatim>\<open>return\<close> of
  \<^verbatim>\<open>calculate_statistics\<close>.
\<close>

definition full_snapshot ::
    "int \<Rightarrow> pyfloat \<Rightarrow> pyfloat \<Rightarrow> pyfloat \<Rightarrow> pyfloat \<Rightarrow> pyfloat list \<Rightarrow> snapshot" where
  "full_snapshot n mn mx me md ms =
     [(''count'', PInt n), (''minimum'', PFloat mn), (''maximum'', PFloat mx),
      (''mean'', PFloat me), (''median'', PFloat md), (''modes'', PFloats ms)]"

text \<open>
  The six field checks, as the specification words them.  A submitted value is
  approximately equal to a float of the ground truth when it converts to a float that
  \<^verbatim>\<open>math.isclose\<close> accepts under the given tolerances; a submitted mode is accepted when
  it converts to a float equal to a member of the modes.
\<close>

definition approx_eq ::
    "(string \<Rightarrow> pyfloat option) \<Rightarrow> json \<Rightarrow> pyfloat \<Rightarrow> pyfloat \<Rightarrow> pyfloat \<Rightarrow> bool" where
  "approx_eq parse u g rel_tol abs_tol =
     (case py_float parse u of Inl err \<Rightarrow> False | Inr a \<Rightarrow> isclose a g rel_tol abs_tol)"

definition mode_accepted :: "(string \<Rightarrow> pyfloat option) \<Rightarrow> json \<Rightarrow> pyfloat list \<Rightarrow> bool" where
  "mode_accepted parse u ms =
     (case py_float parse u of Inl err \<Rightarrow> False | Inr a \<Rightarrow> list_ex (feq a) ms)"

definition six_checks ::
    "(string \<Rightarrow> pyfloat option) \<Rightarrow> (string \<times> json) list \<Rightarrow>
     int \<Rightarrow> pyfloat \<Rightarrow> pyfloat \<Rightarrow> pyfloat \<Rightarrow> pyfloat \<Rightarrow> pyfloat list \<Rightarrow> bool" where
  "six_checks parse d n mn mx me md ms \<longleftrightarrow>
     py_eq (dict_get d ''count'') (PInt n)
     \<and> approx_eq parse (dict_get d ''minimum'') mn tol_1e9 (Fin 0)
     \<and> approx_eq parse (dict_get d ''maximum'') mx tol_1e9 (Fin 0)
     \<and> approx_eq parse (dict_get d ''mean'') me tol_1e9 tol_1e9
     \<and> approx_eq parse (dict_get d ''median'') md tol_1e9 tol_1e9
     \<and> mode_accepted parse (dict_get d ''mode'') ms"

text \<open>The descriptions of all the checks that fail, in the order of the checks.\<close>

definition mismatches ::
    "(string \<Rightarrow> pyfloat option) \<Rightarrow> (string \<times> json) list \<Rightarrow>
     int \<Rightarrow> pyfloat \<Rightarrow> pyfloat \<Rightarrow> pyfloat \<Rightarrow> pyfloat \<Rightarrow> pyfloat list \<Rightarrow> string list" where
  "mismatches parse d n mn mx me md ms =
     (if py_eq (dict_get d ''count'') (PInt n) then [] else [''Count mismatch''])
     @ (if approx_eq parse (dict_get d ''minimum'') mn tol_1e9 (Fin 0) then []
        else [''Minimum mismatch''])
     @ (if approx_eq parse (dict_get d ''maximum'') mx tol_1e9 (Fin 0) then []
        else [''Maximum mismatch''])
     @ (if approx_eq parse (dict_get d ''mean'') me tol_1e9 tol_1e9 then []
        else [''Mean mismatch''])
     @ (if approx_eq parse (dict_get d ''median'') md tol_1e9 tol_1e9 then []
        else [''Median mismatch''])
     @ (if mode_accepted parse (dict_get d ''mode'') ms then [] else [''Mode mismatch''])"

text \<open>A submission for the example challenge that is wrong in its count and in its mode.\<close>

definition wrong_payload :: "(string \<times> json) list" where
  "wrong_payload =
     [(''secret_key'', JStr ''k1''), (''count'', JInt 4), (''minimum'', JInt 10),
      (''maximum'', JInt 25), (''mean'', JInt 18), (''median'', JInt 20), (''mode'', JInt 15)]"

text \<open>
  The entry \<^verbatim>\<open>calculate_statistics(xs)[k]\<close> of the snapshot of a dataset, and the number
  of occurrences a counter holds for a value (0 for none).
\<close>

definition snapshot_item :: "int list \<Rightarrow> string \<Rightarrow> error + pyval" where
  "snapshot_item xs k = bindE (calculate_statistics xs) (\<lambda>s. getitem s k)"

definition counted :: "('a \<times> nat) list \<Rightarrow> 'a \<Rightarrow> nat" where
  "counted kcs x = (case map_of kcs x of None \<Rightarrow> 0 | Some c \<Rightarrow> c)"

text \<open>The values of a dataset that occur most often, in ascending order.\<close>

definition most_frequent :: "int list \<Rightarrow> int list" where
  "most_frequent xs =
     sorted_list_of_set {x \<in> set xs. count_list xs x = Max (count_list xs ` set xs)}"

text \<open>A dataset with two values tied for the most occurrences.\<close>

definition tied_example :: "int list" where
  "tied_example = [1, 7, 2, 7, 2, 4]"

text \<open>The dataset \<^verbatim>\<open>step1_get_challenge\<close> draws from the entropy \<open>rnd\<close>.\<close>

definition drawn_numbers :: "(nat \<Rightarrow> nat) \<Rightarrow> int list" where
  "drawn_numbers rnd = map (\<lambda>i. randint 1 100 (rnd (Suc i))) [0..<nat (randint 5 15 (rnd 0))]"

text \<open>
  A challenge as issuance builds it: a dataset of 5 to 15 ints between 1 and 100, and
  as ground truth the snapshot of that dataset, with floats for minimum, maximum, mean
  and median and with at least one mode.
\<close>

definition good_challenge :: "challenge \<Rightarrow> bool" where
  "good_challenge c \<longleftrightarrow>
     5 \<le> length (numbers_y c) \<and> length (numbers_y c) \<le> 15
     \<and> list_all (\<lambda>x. 1 \<le> x \<and> x \<le> 100) (numbers_y c)
     \<and> calculate_statistics (numbers_y c) = Inr (correct_stats c)
     \<and> (\<exists>mn mx me md ms.
           correct_stats c = full_snapshot (int (length (numbers_y c)))
                               (Fin mn) (Fin mx) (Fin me) (Fin md) ms
           \<and> ms \<noteq> [])"

text \<open>The stores the service can reach: from the empty one, by its two endpoints.\<close>

inductive reachable :: "store \<Rightarrow> bool" where
  start: "reachable no_challenges"
| issue: "reachable s \<Longrightarrow> reachable (snd (step1_get_challenge email_arg secret_key rnd s))"
| submit: "reachable s \<Longrightarrow> reachable (snd (step2_submit_statistics parse body s))"

text \<open>The statistic fields that the comparison converts with \<^verbatim>\<open>float\<close>.\<close>

definition float_fields :: "string list" where
  "float_fields = [''minimum'', ''maximum'', ''mean'', ''median'', ''mode'']"

text \<open>An entropy source for examples.\<close>

definition example_entropy :: "nat \<Rightarrow> nat" where
  "example_entropy i = 7 * i + 3"

text \<open>
  The store after one issuance to the empty store, and a second challenge, on the
  dataset \<^verbatim>\<open>[10, 15, 20, 25, 15, 20, 21]\<close>, whose ground truth differs from the
  example's.
\<close>

definition example_store :: store where
  "example_store =
     snd (step1_get_challenge (Some ''user@example.com'') ''k1'' example_entropy no_challenges)"

definition other_challenge :: challenge where
  "other_challenge =
     \<lparr>email = ''other@example.com'', numbers_y = [10, 15, 20, 25, 15, 20, 21],
      correct_stats = full_snapshot 7 (Fin 10) (Fin 25) (Fin 18) (Fin 20) [Fin 15, Fin 20],
      step2_attempts = 0, last_correct_submission_data = None\<rparr>"

text \<open>
  A reader of strings that knows the literal \<^verbatim>\<open>17\<close>, which \<^verbatim>\<open>float\<close> reads as 17.0; a
  submission whose mean is that string; and a challenge on the dataset
  \<^verbatim>\<open>[10, 15, 20, 25, 15]\<close>, whose mean is 17.
\<close>

definition parse_seventeen :: "string \<Rightarrow> pyfloat option" where
  "parse_seventeen s = (if s = ''17'' then Some (Fin 17) else None)"

definition string_mean_payload :: "(string \<times> json) list" where
  "string_mean_payload =
     [(''secret_key'', JStr ''k1''), (''count'', JInt 4), (''minimum'', JInt 10),
      (''maximum'', JInt 25), (''mean'', JStr ''17''), (''median'', JInt 20), (''mode'', JInt 15)]"

definition mean_challenge :: challenge where
  "mean_challenge =
     \<lparr>email = ''user@example.com'', numbers_y = [10, 15, 20, 25, 15],
      correct_stats = full_snapshot 5 (Fin 10) (Fin 25) (Fin 17) (Fin 15) [Fin 15],
      step2_attempts = 0, last_correct_submission_data = None\<rparr>"

section \<open>Verified properties\<close>

subsection \<open>Rounding to a float\<close>

lemma pow2_powi: "pow2 e = 2 powi e"
  by (simp add: pow2_def power_int_def power_inverse inverse_eq_divide field_simps)

lemma pow2_pos [simp]: "0 < pow2 e"
  by (simp add: pow2_powi zero_less_power_int)

lemma pow2_add: "pow2 (a + b) = pow2 a * pow2 b"
  by (simp add: pow2_powi power_int_add)

lemma pow2_mono: "a \<le> b \<Longrightarrow> pow2 a \<le> pow2 b"
  by (simp add: pow2_powi power_int_increasing)

lemma pow2_strict_mono: "a < b \<Longrightarrow> pow2 a < pow2 b"
  by (simp add: pow2_powi power_int_strict_increasing)

lemma pow2_le_iff: "pow2 a \<le> pow2 b \<longleftrightarrow> a \<le> b"
  using pow2_mono[of a b] pow2_strict_mono[of b a] by (auto simp: not_le[symmetric])

lemma pow2_less_iff: "pow2 a < pow2 b \<longleftrightarrow> a < b"
  using pow2_le_iff[of b a] by (auto simp: not_le[symmetric])

lemma pow2_nat: "0 \<le> e \<Longrightarrow> pow2 e = 2 ^ nat e"
  by (simp add: pow2_def)

lemma pow2_diff: "pow2 (a - b) = pow2 a / pow2 b"
  by (simp add: pow2_powi power_int_diff)

lemma ilog2_bounds:
  assumes "0 < x"
  shows "pow2 (ilog2 x) \<le> x \<and> x < pow2 (ilog2 x + 1)"
proof -
  obtain p q where pq: "quotient_of x = (p, q)" by (cases "quotient_of x")
  have q: "0 < q" using quotient_of_denom_pos[OF pq] .
  have x: "x = of_int p / of_int q" using quotient_of_div[OF pq] .
  have p: "0 < p" using assms q x by (simp add: zero_less_divide_iff)
  define bp where "bp = bitlen p"
  define bq where "bq = bitlen q"
  have bp1: "1 \<le> bp" and bq1: "1 \<le> bq"
    using p q by (auto simp: bp_def bq_def bitlen_alt_def)
  have P: "(2::int) ^ nat (bp - 1) \<le> p" "p < 2 ^ nat bp"
    using bitlen_bounds[OF p] by (auto simp: bp_def)
  have Q: "(2::int) ^ nat (bq - 1) \<le> q" "q < 2 ^ nat bq"
    using bitlen_bounds[OF q] by (auto simp: bq_def)
  have "(of_int (2 ^ nat (bp - 1)) :: rat) \<le> of_int p" "(of_int p :: rat) < of_int (2 ^ nat bp)"
    using P by (simp_all only: of_int_le_iff of_int_less_iff)
  then have Pr: "pow2 (bp - 1) \<le> of_int p" "of_int p < pow2 bp"
    using bp1 by (simp_all add: pow2_nat)
  have "(of_int (2 ^ nat (bq - 1)) :: rat) \<le> of_int q" "(of_int q :: rat) < of_int (2 ^ nat bq)"
    using Q by (simp_all only: of_int_le_iff of_int_less_iff)
  then have Qr: "pow2 (bq - 1) \<le> of_int q" "of_int q < pow2 bq"
    using bq1 by (simp_all add: pow2_nat)
  have qr: "(0::rat) < of_int q" using q by simp
  have up: "x < pow2 (bp - bq + 1)"
  proof -
    have "x * of_int q = of_int p" using x qr by simp
    also have "\<dots> < pow2 bp" by (rule Pr)
    also have "\<dots> = pow2 (bp - bq + 1) * pow2 (bq - 1)"
      by (simp flip: pow2_add)
    also have "\<dots> \<le> pow2 (bp - bq + 1) * of_int q"
      using Qr(1) by (simp add: mult_left_mono less_imp_le)
    finally show ?thesis using qr by simp
  qed
  have lo: "pow2 (bp - bq - 1) \<le> x"
  proof -
    have "pow2 (bp - bq - 1) * of_int q \<le> pow2 (bp - bq - 1) * pow2 bq"
      using Qr(2) by (simp add: mult_left_mono less_imp_le)
    also have "\<dots> = pow2 (bp - 1)" by (simp flip: pow2_add)
    also have "\<dots> \<le> of_int p" by (rule Pr)
    also have "\<dots> = x * of_int q" using x qr by simp
    finally show ?thesis using qr by simp
  qed
  show ?thesis
    using up lo pq by (auto simp: ilog2_def Let_def bp_def bq_def not_le)
qed

lemma ilog2_unique:
  assumes "pow2 e \<le> x" "x < pow2 (e + 1)"
  shows "ilog2 x = e"
proof -
  have x: "0 < x" using assms(1) pow2_pos[of e] by linarith
  from ilog2_bounds[OF x] have b: "pow2 (ilog2 x) \<le> x" "x < pow2 (ilog2 x + 1)" by auto
  have "pow2 e < pow2 (ilog2 x + 1)" using assms(1) b(2) by linarith
  then have 1: "e < ilog2 x + 1" by (simp add: pow2_less_iff)
  have "pow2 (ilog2 x) < pow2 (e + 1)" using assms(2) b(1) by linarith
  then have 2: "ilog2 x < e + 1" by (simp add: pow2_less_iff)
  from 1 2 show ?thesis by linarith
qed

lemma ilog2_mono:
  assumes "0 < x" "x \<le> y"
  shows "ilog2 x \<le> ilog2 y"
proof -
  have y: "0 < y" using assms by linarith
  have "pow2 (ilog2 x) \<le> x" using ilog2_bounds[OF assms(1)] by simp
  also have "x \<le> y" by fact
  also have "y < pow2 (ilog2 y + 1)" using ilog2_bounds[OF y] by simp
  finally show ?thesis by (simp add: pow2_less_iff)
qed

lemma rhe_of_int [simp]: "round_half_even (of_int n) = n"
  by (simp add: round_half_even_def)

lemma rhe_range: "\<lfloor>q\<rfloor> \<le> round_half_even q \<and> round_half_even q \<le> \<lfloor>q\<rfloor> + 1"
  by (simp add: round_half_even_def Let_def)

lemma rhe_mono:
  assumes "a \<le> b"
  shows "round_half_even a \<le> round_half_even b"
proof (cases "\<lfloor>a\<rfloor> = \<lfloor>b\<rfloor>")
  case True
  then show ?thesis using assms by (auto simp: round_half_even_def Let_def)
next
  case False
  then have "\<lfloor>a\<rfloor> + 1 \<le> \<lfloor>b\<rfloor>" using floor_mono[OF assms] by linarith
  then show ?thesis using rhe_range[of a] rhe_range[of b] by linarith
qed

lemma rhe_ge: "of_int n \<le> q \<Longrightarrow> n \<le> round_half_even q"
  using rhe_mono[of "of_int n" q] by simp

lemma rhe_le: "q \<le> of_int n \<Longrightarrow> round_half_even q \<le> n"
  using rhe_mono[of q "of_int n"] by simp

lemma rhe_neg: "round_half_even (- q) = - round_half_even q"
proof (cases "q \<in> \<int>")
  case True
  then obtain n where "q = of_int n" by (auto elim: Ints_cases)
  then show ?thesis by (simp flip: of_int_minus)
next
  case False
  then have ne: "q \<noteq> of_int \<lfloor>q\<rfloor>"
    by (metis Ints_of_int)
  then have fl: "\<lfloor>- q\<rfloor> = - \<lfloor>q\<rfloor> - 1"
    by (simp add: floor_minus ceiling_altdef)
  show ?thesis
    unfolding round_half_even_def Let_def fl by (auto simp: algebra_simps)
qed

lemma ulp_pos [simp]: "0 < ulp x"
  by (simp add: ulp_def)

lemma ulp_nonneg [simp]: "0 \<le> ulp x"
  by (simp add: ulp_def less_imp_le)

lemma ulp_neq0 [simp]: "ulp x \<noteq> 0"
  using ulp_pos[of x] by linarith

lemma ulp_neg [simp]: "ulp (- x) = ulp x"
  by (simp add: ulp_def dexp_def)

lemma rdv_neg: "rdv (- x) = - rdv x"
  by (simp add: rdv_def rhe_neg)

lemma rdv_zero [simp]: "rdv 0 = 0"
  by (simp add: rdv_def round_half_even_def)

lemma round_double_rdv:
  "round_double x =
     (if pow2 1024 \<le> \<bar>rdv x\<bar> then (if 0 < x then PInf else NInf) else Fin (rdv x))"
proof (cases "x = 0")
  case True
  have "\<not> pow2 1024 \<le> (0::rat)" using pow2_pos[of 1024] by linarith
  then show ?thesis using True by (simp add: round_double_def)
next
  case False
  then show ?thesis by (simp add: round_double_def rdv_def ulp_def dexp_def Let_def)
qed

lemma dexp_upper: assumes "0 < x" shows "x < pow2 (dexp x + 1)"
proof -
  have "x < pow2 (ilog2 x + 1)" using ilog2_bounds[OF assms] by simp
  also have "\<dots> \<le> pow2 (dexp x + 1)" using assms by (intro pow2_mono) (simp add: dexp_def)
  finally show ?thesis .
qed

lemma rdv_nonneg: assumes "0 \<le> x" shows "0 \<le> rdv x"
proof -
  have "(of_int 0 :: rat) \<le> x / ulp x" using assms by simp
  then have "0 \<le> round_half_even (x / ulp x)" by (rule rhe_ge)
  then show ?thesis by (simp add: rdv_def)
qed

lemma rdv_upper: assumes "0 < x" shows "rdv x \<le> pow2 (dexp x + 1)"
proof -
  have "x / ulp x < pow2 (dexp x + 1) / ulp x"
    using dexp_upper[OF assms] by (simp add: divide_strict_right_mono)
  also have "\<dots> = pow2 53" by (simp add: ulp_def flip: pow2_diff)
  also have "\<dots> = of_int (2 ^ 53)" by (simp add: pow2_nat)
  finally have "round_half_even (x / ulp x) \<le> 2 ^ 53" by (intro rhe_le) simp
  then have "(of_int (round_half_even (x / ulp x)) :: rat) \<le> of_int (2 ^ 53)"
    by (simp only: of_int_le_iff)
  then have "rdv x \<le> of_int (2 ^ 53) * ulp x"
    unfolding rdv_def by (intro mult_right_mono) simp_all
  also have "of_int (2 ^ 53) * ulp x = pow2 53 * pow2 (dexp x - 52)"
    by (simp add: ulp_def pow2_nat)
  also have "\<dots> = pow2 (dexp x + 1)" using pow2_add[of 53 "dexp x - 52"] by (simp add: add.commute)
  finally show ?thesis .
qed

lemma rdv_lower: assumes "pow2 (dexp x) \<le> x" shows "pow2 (dexp x) \<le> rdv x"
proof -
  have "pow2 52 = pow2 (dexp x) / ulp x" by (simp add: ulp_def flip: pow2_diff)
  also have "\<dots> \<le> x / ulp x" using assms by (simp add: divide_right_mono)
  finally have "of_int (2 ^ 52) \<le> x / ulp x" by (simp add: pow2_nat)
  then have "2 ^ 52 \<le> round_half_even (x / ulp x)" by (rule rhe_ge)
  then have "(of_int (2 ^ 52) :: rat) \<le> of_int (round_half_even (x / ulp x))"
    by (simp only: of_int_le_iff)
  then have "of_int (2 ^ 52) * ulp x \<le> rdv x"
    unfolding rdv_def by (intro mult_right_mono) simp_all
  moreover have "of_int (2 ^ 52) * ulp x = pow2 52 * pow2 (dexp x - 52)"
    by (simp add: ulp_def pow2_nat)
  moreover have "pow2 52 * pow2 (dexp x - 52) = pow2 (dexp x)"
    using pow2_add[of 52 "dexp x - 52"] by simp
  ultimately show ?thesis by simp
qed

lemma dexp_mono: assumes "0 < x" "x \<le> y" shows "dexp x \<le> dexp y"
  using ilog2_mono[of x y] assms by (simp add: dexp_def)

lemma rdv_mono_pos:
  assumes "0 < x" "x \<le> y"
  shows "rdv x \<le> rdv y"
proof (cases "dexp x = dexp y")
  case True
  then have u: "ulp x = ulp y" by (simp add: ulp_def)
  have "x / ulp y \<le> y / ulp y" using assms by (simp add: divide_right_mono)
  then have "round_half_even (x / ulp y) \<le> round_half_even (y / ulp y)" by (rule rhe_mono)
  then show ?thesis by (simp add: rdv_def u)
next
  case False
  have y: "0 < y" using assms by linarith
  from False have lt: "dexp x < dexp y" using dexp_mono[OF assms] by linarith
  then have "dexp y = ilog2 y" using y by (auto simp: dexp_def max_def split: if_splits)
  then have "pow2 (dexp y) \<le> y" using ilog2_bounds[OF y] by simp
  then have "pow2 (dexp y) \<le> rdv y" by (rule rdv_lower)
  moreover have "rdv x \<le> pow2 (dexp x + 1)" by (rule rdv_upper[OF assms(1)])
  moreover have "pow2 (dexp x + 1) \<le> pow2 (dexp y)" using lt by (intro pow2_mono) simp
  ultimately show ?thesis by linarith
qed

lemma rdv_mono:
  assumes "x \<le> y"
  shows "rdv x \<le> rdv y"
proof -
  consider "0 < x" | "x \<le> 0" "0 \<le> y" | "y < 0" by linarith
  then show ?thesis
  proof cases
    case 1
    then show ?thesis using assms by (rule rdv_mono_pos)
  next
    case 2
    have "0 \<le> rdv (- x)" using 2 by (intro rdv_nonneg) simp
    then have "rdv x \<le> 0" by (simp add: rdv_neg)
    moreover have "0 \<le> rdv y" using 2 by (intro rdv_nonneg)
    ultimately show ?thesis by linarith
  next
    case 3
    have "rdv (- y) \<le> rdv (- x)" using 3 assms by (intro rdv_mono_pos) simp_all
    then show ?thesis by (simp add: rdv_neg)
  qed
qed

lemma rdv_exact:
  assumes "x = of_int n * ulp x"
  shows "rdv x = x"
proof -
  have "x / ulp x = of_int n" using assms ulp_pos[of x]
    by (metis less_irrefl nonzero_mult_div_cancel_right)
  then show ?thesis using assms by (simp add: rdv_def)
qed

lemma rdv_nat:
  assumes "a \<le> 2 ^ 53"
  shows "rdv (of_nat a) = of_nat a"
proof (cases "a = 0")
  case True
  then show ?thesis by simp
next
  case False
  define x :: rat where "x = of_nat a"
  have x: "0 < x" "1 \<le> x" using False by (simp_all add: x_def)
  define e where "e = ilog2 x"
  have b: "pow2 e \<le> x" "x < pow2 (e + 1)" using ilog2_bounds[OF x(1)] by (simp_all add: e_def)
  have "pow2 0 < pow2 (e + 1)" using b(2) x(2) by (simp add: pow2_def)
  then have e0: "0 \<le> e" by (simp add: pow2_less_iff)
  have "(of_nat a :: rat) \<le> of_nat (2 ^ 53)"
    using assms by (simp only: of_nat_le_iff)
  then have "x \<le> pow2 53"
    by (simp add: x_def pow2_nat)
  then have "pow2 e \<le> pow2 53" using b(1) by linarith
  then have e53: "e \<le> 53" by (simp add: pow2_le_iff)
  have d: "dexp x = e" using e0 x(1) by (simp add: dexp_def e_def)
  show ?thesis
  proof (cases "e \<le> 52")
    case True
    have "ulp x * pow2 (52 - e) = 1"
      using pow2_add[of "e - 52" "52 - e"] by (simp add: ulp_def d pow2_def)
    moreover have "pow2 (52 - e) = of_int (2 ^ nat (52 - e))"
      using True by (simp add: pow2_nat)
    ultimately have "x = of_int (int a * 2 ^ nat (52 - e)) * ulp x"
      by (simp add: x_def algebra_simps)
    then show ?thesis unfolding x_def[symmetric] by (rule rdv_exact)
  next
    case False
    then have e: "e = 53" using e53 by linarith
    have "x = pow2 53" using b(1) \<open>x \<le> pow2 53\<close> e by simp
    moreover have "ulp x = 2" by (simp add: ulp_def d e pow2_def)
    ultimately have "x = of_int (2 ^ 52) * ulp x" by (simp add: pow2_def)
    then show ?thesis unfolding x_def[symmetric] by (rule rdv_exact)
  qed
qed

lemma rdv_int:
  assumes "\<bar>n\<bar> \<le> 2 ^ 53"
  shows "rdv (of_int n) = of_int n"
proof (cases "0 \<le> n")
  case True
  then have "rdv (of_nat (nat n)) = of_nat (nat n)"
    using assms by (intro rdv_nat) (simp add: nat_le_iff)
  then show ?thesis using True by simp
next
  case False
  then have "rdv (of_nat (nat (- n))) = of_nat (nat (- n))"
    using assms by (intro rdv_nat) (simp add: nat_le_iff)
  then have "rdv (- of_int n) = - of_int n" using False by simp
  then show ?thesis by (simp add: rdv_neg)
qed

lemma round_double_between:
  assumes "of_int lo \<le> x" "x \<le> of_int hi" "\<bar>lo\<bar> \<le> 2 ^ 53" "\<bar>hi\<bar> \<le> 2 ^ 53"
  shows "round_double x = Fin (rdv x) \<and> of_int lo \<le> rdv x \<and> rdv x \<le> of_int hi"
proof -
  have l: "of_int lo \<le> rdv x" using rdv_mono[OF assms(1)] rdv_int[OF assms(3)] by simp
  have h: "rdv x \<le> of_int hi" using rdv_mono[OF assms(2)] rdv_int[OF assms(4)] by simp
  have "(of_int hi :: rat) \<le> of_int (2 ^ 53)" "(of_int (- (2 ^ 53)) :: rat) \<le> of_int lo"
    using assms(3,4) by simp_all
  then have "\<bar>rdv x\<bar> \<le> 2 ^ 53" using l h by (simp add: abs_le_iff)
  moreover have "(2::rat) ^ 53 < pow2 1024" by (simp add: pow2_def)
  ultimately have "\<not> pow2 1024 \<le> \<bar>rdv x\<bar>" by linarith
  then show ?thesis using l h by (simp add: round_double_rdv)
qed

lemma round_double_int:
  assumes "\<bar>n\<bar> \<le> 2 ^ 53"
  shows "round_double (of_int n) = Fin (of_int n)"
  using round_double_between[of n "of_int n" n] assms rdv_int[OF assms] by simp

lemma float_of_int_exact:
  "\<bar>n\<bar> \<le> 2 ^ 53 \<Longrightarrow> float_of_int n = Inr (Fin (of_int n))"
  by (simp add: float_of_int_def float_of_rat_def round_double_int)

lemma exact_float_small: "\<bar>n\<bar> \<le> 2 ^ 53 \<Longrightarrow> exact_float n"
  by (simp add: exact_float_def float_of_int_exact)

lemma exact_float_rdv:
  assumes "exact_float n"
  shows "rdv (of_int n) = of_int n" "\<bar>of_int n :: rat\<bar> < pow2 1024"
proof -
  from assms have "round_double (of_int n) = Fin (of_int n)"
    by (auto simp: exact_float_def float_of_int_def float_of_rat_def split: pyfloat.splits)
  then have a: "rdv (of_int n) = of_int n" and b: "\<not> pow2 1024 \<le> \<bar>rdv (of_int n)\<bar>"
    by (auto simp: round_double_rdv split: if_splits)
  show "rdv (of_int n) = of_int n" by (rule a)
  show "\<bar>of_int n :: rat\<bar> < pow2 1024" using b unfolding a by linarith
qed

lemma float_of_rat_between:
  assumes "of_int lo \<le> x" "x \<le> of_int hi" "exact_float lo" "exact_float hi"
  shows "float_of_rat x = Inr (Fin (rdv x)) \<and> of_int lo \<le> rdv x \<and> rdv x \<le> of_int hi"
proof -
  have l: "of_int lo \<le> rdv x" using rdv_mono[OF assms(1)] exact_float_rdv(1)[OF assms(3)] by simp
  have h: "rdv x \<le> of_int hi" using rdv_mono[OF assms(2)] exact_float_rdv(1)[OF assms(4)] by simp
  have "\<bar>rdv x\<bar> < pow2 1024"
    using l h exact_float_rdv(2)[OF assms(3)] exact_float_rdv(2)[OF assms(4)] by linarith
  then have "round_double x = Fin (rdv x)" by (simp add: round_double_rdv)
  then show ?thesis using l h by (simp add: float_of_rat_def)
qed

subsection \<open>The checks before the comparison\<close>

lemma well_formed_nonempty: "well_formed d k \<Longrightarrow> d \<noteq> []"
  by (auto simp: well_formed_def dict_get_def)

lemma well_formed_fields:
  "well_formed d k \<Longrightarrow> list_all (\<lambda>(k, v). v \<noteq> JNull) (user_stats_of d)"
  by (simp add: well_formed_def user_stats_of_def stat_fields_def)

lemma read_request_well_formed:
  "well_formed d k \<Longrightarrow> read_request (Parsed (JObj d)) = Inr (JObj d, JStr k, user_stats_of d)"
  using well_formed_nonempty[of d k] by (simp add: read_request_def well_formed_def)

lemma step2_limit:
  assumes "well_formed d k" "challenges_data k = Some c" "MAX_STEP2_ATTEMPTS \<le> step2_attempts c"
  shows "step2_submit_statistics parse (Parsed (JObj d)) challenges_data =
     (if (case last_correct_submission_data c of None \<Rightarrow> False | Some p \<Rightarrow> truthy p)
      then Response (JObj [(''message'', JStr ''Your response has been submitted successfully''),
                           (''note'', JStr ''Rate limit reached, but previous submission was correct.'')]) 200
      else Response (message ''Please try again!!! (Max attempts reached)'') 429,
      challenges_data)"
  using assms(2,3) well_formed_fields[OF assms(1)] assms(1)[unfolded well_formed_def]
  by (simp add: step2_submit_statistics_def read_request_well_formed[OF assms(1)])

lemma step2_attempt:
  assumes "well_formed d k" "challenges_data k = Some c" "step2_attempts c < MAX_STEP2_ATTEMPTS"
  shows "step2_submit_statistics parse (Parsed (JObj d)) challenges_data =
     (case validate parse (user_stats_of d) (correct_stats c) of
        Inl err \<Rightarrow> (Unhandled err, challenges_data(k \<mapsto> c\<lparr>step2_attempts := step2_attempts c + 1\<rparr>))
      | Inr (valid_submission, errors) \<Rightarrow>
          if valid_submission then
            (Response (message ''Your response has been submitted successfully'') 200,
             challenges_data(k \<mapsto> c\<lparr>step2_attempts := step2_attempts c + 1,
                                      last_correct_submission_data := Some (JObj d)\<rparr>))
          else (Response (message ''Please try again!!!'') 400,
                challenges_data(k \<mapsto> c\<lparr>step2_attempts := step2_attempts c + 1\<rparr>)))"
  using assms(2,3) well_formed_fields[OF assms(1)] assms(1)[unfolded well_formed_def]
  by (auto simp add: step2_submit_statistics_def read_request_well_formed[OF assms(1)] Let_def
      split: sum.splits prod.splits)

text \<open>
  Claim C5, as amended.  A submission whose body is a non-empty dictionary in which
  \<^verbatim>\<open>secret_key\<close> is absent (or null), or one of the six statistic fields is absent or
  null, is answered with the missing-fields message and status 400, and the store, the
  attempt counter included, is left as it was.  The body must be non-empty: the empty
  dictionary is turned away one statement earlier, by \<^verbatim>\<open>if not data\<close>, with another
  message.
\<close>

theorem missing_fields_rejected:
  assumes "d \<noteq> []"
    and "dict_get d ''secret_key'' = JNull \<or> (\<exists>f \<in> set stat_fields. dict_get d f = JNull)"
  shows "step2_submit_statistics parse (Parsed (JObj d)) challenges_data =
           (Response (message ''Please try again!!! (Missing fields)'') 400, challenges_data)"
  using assms
  by (auto simp add: step2_submit_statistics_def read_request_def user_stats_of_def stat_fields_def)

theorem missing_fields_rejected_witness:
  "[(''secret_key'', JStr ''k''), (''count'', JInt 5)] \<noteq> []
   \<and> dict_get [(''secret_key'', JStr ''k''), (''count'', JInt 5)] ''median'' = JNull
   \<and> step2_submit_statistics parse_nothing
        (Parsed (JObj [(''secret_key'', JStr ''k''), (''count'', JInt 5)])) no_challenges =
      (Response (message ''Please try again!!! (Missing fields)'') 400, no_challenges)"
proof -
  have "dict_get [(''secret_key'', JStr ''k''), (''count'', JInt 5)] ''median'' = JNull"
    by (simp add: dict_get_def)
  moreover have "''median'' \<in> set stat_fields"
    by (simp add: stat_fields_def)
  ultimately show ?thesis
    using missing_fields_rejected[of "[(''secret_key'', JStr ''k''), (''count'', JInt 5)]"
        parse_nothing no_challenges]
    by blast
qed

text \<open>
  The empty dictionary has no \<^verbatim>\<open>secret_key\<close>, yet its answer is the invalid-JSON
  message, not the missing-fields one.
\<close>

theorem empty_object_counterexample:
  "dict_get [] ''secret_key'' = JNull
   \<and> fst (step2_submit_statistics parse_nothing (Parsed (JObj [])) no_challenges)
       = Response (message ''Please try again!!! (Invalid JSON)'') 400
   \<and> fst (step2_submit_statistics parse_nothing (Parsed (JObj [])) no_challenges)
       \<noteq> Response (message ''Please try again!!! (Missing fields)'') 400"
  by (simp add: step2_submit_statistics_def read_request_def dict_get_def message_def)

subsection \<open>The attempt limit\<close>

lemma well_formed_example: "well_formed (example_payload (JInt m) n) ''k1''"
  by (simp add: well_formed_def example_payload_def dict_get_def stat_fields_def)


text \<open>
  Claim C3.  A well-formed submission to a known challenge whose attempt counter has
  reached the limit of 10 is answered with status 200 and a note when a successful payload
  is stored, and with status 429 when none is; in both cases the store, the attempt
  counter included, stays as it was.  The endpoint tests the stored payload for truth;
  \<open>payload_ok\<close> says that a stored payload is a true value, as \<open>reachable_good\<close> below
  shows of every store the service can reach.
\<close>

theorem limit_reached:
  assumes "well_formed d k" and "challenges_data k = Some c"
    and "10 \<le> step2_attempts c" and "payload_ok c"
  shows "step2_submit_statistics parse (Parsed (JObj d)) challenges_data =
     (if last_correct_submission_data c \<noteq> None
      then Response (JObj [(''message'', JStr ''Your response has been submitted successfully''),
                           (''note'', JStr ''Rate limit reached, but previous submission was correct.'')]) 200
      else Response (message ''Please try again!!! (Max attempts reached)'') 429,
      challenges_data)"
proof -
  have "MAX_STEP2_ATTEMPTS \<le> step2_attempts c"
    using assms(3) by (simp add: MAX_STEP2_ATTEMPTS_def)
  from step2_limit[where challenges_data = challenges_data, OF assms(1,2) this] assms(4)
  show ?thesis
    by (auto simp: payload_ok_def split: option.splits)
qed

theorem limit_reached_witness:
  "step2_submit_statistics parse_nothing (Parsed (JObj (example_payload (JInt 18) 20)))
     (no_challenges(''k1'' \<mapsto> example_challenge 10 (Some (JObj (example_payload (JInt 18) 20)))))
   = (Response (JObj [(''message'', JStr ''Your response has been submitted successfully''),
                      (''note'', JStr ''Rate limit reached, but previous submission was correct.'')]) 200,
      no_challenges(''k1'' \<mapsto> example_challenge 10 (Some (JObj (example_payload (JInt 18) 20)))))
   \<and> step2_submit_statistics parse_nothing (Parsed (JObj (example_payload (JInt 18) 20)))
     (no_challenges(''k1'' \<mapsto> example_challenge 10 None))
   = (Response (message ''Please try again!!! (Max attempts reached)'') 429,
      no_challenges(''k1'' \<mapsto> example_challenge 10 None))"
proof -
  let ?d = "example_payload (JInt 18) 20"
  have 1: "payload_ok (example_challenge 10 (Some (JObj ?d)))"
    by (simp add: payload_ok_def example_challenge_def example_payload_def)
  have 2: "payload_ok (example_challenge 10 None)"
    by (simp add: payload_ok_def example_challenge_def)
  have 3: "10 \<le> step2_attempts (example_challenge 10 p)" for p
    by (simp add: example_challenge_def)
  have 4: "last_correct_submission_data (example_challenge 10 p) = p" for p
    by (simp add: example_challenge_def)
  have 5: "(no_challenges(''k1'' \<mapsto> c)) ''k1'' = Some c" for c
    by simp
  show ?thesis
    using limit_reached[where challenges_data = "no_challenges(''k1'' \<mapsto> example_challenge 10 (Some (JObj ?d)))"
        and parse = parse_nothing, OF well_formed_example 5 3 1]
      limit_reached[where challenges_data = "no_challenges(''k1'' \<mapsto> example_challenge 10 None)"
        and parse = parse_nothing, OF well_formed_example 5 3 2]
    by (simp add: 4)
qed

subsection \<open>Successes overwrite, failures leave the record alone\<close>


lemma step2_incorrect:
  assumes "well_formed d k" "challenges_data k = Some c" "step2_attempts c < MAX_STEP2_ATTEMPTS"
    and "incorrect_payload parse d (correct_stats c)"
  shows "step2_submit_statistics parse (Parsed (JObj d)) challenges_data =
     (Response (message ''Please try again!!!'') 400,
      challenges_data(k \<mapsto> c\<lparr>step2_attempts := step2_attempts c + 1\<rparr>))"
  using assms(4)
  by (auto simp add: step2_attempt[where challenges_data = challenges_data, OF assms(1,2,3)]
      incorrect_payload_def split: sum.splits)

lemmas validate_defs =
  validate_def check_count_def check_minimum_def check_maximum_def check_mean_def
  check_median_def check_mode_def getitem_def bindE_def






subsection \<open>The comparison\<close>

text \<open>
  Each statement of the comparison either raises or leaves \<^verbatim>\<open>valid_submission\<close> false
  exactly when it was false before or its own check fails, appending its description in
  the latter case.
\<close>

lemma check_count_full:
  "check_count (user_stats_of d) (full_snapshot n mn mx me md ms) v =
     Inr (if py_eq (dict_get d ''count'') (PInt n) then v
          else (False, snd v @ [''Count mismatch'']))"
  by (simp add: check_count_def user_stats_of_def full_snapshot_def getitem_def bindE_def)

lemma check_minimum_full:
  "check_minimum parse (user_stats_of d) (full_snapshot n mn mx me md ms) v =
     (case py_float parse (dict_get d ''minimum'') of
        Inl err \<Rightarrow> Inl err
      | Inr a \<Rightarrow> Inr (if isclose a mn tol_1e9 (Fin 0) then v
                        else (False, snd v @ [''Minimum mismatch''])))"
  by (simp add: check_minimum_def user_stats_of_def full_snapshot_def getitem_def bindE_def
      split: sum.splits)

lemma check_maximum_full:
  "check_maximum parse (user_stats_of d) (full_snapshot n mn mx me md ms) v =
     (case py_float parse (dict_get d ''maximum'') of
        Inl err \<Rightarrow> Inl err
      | Inr a \<Rightarrow> Inr (if isclose a mx tol_1e9 (Fin 0) then v
                        else (False, snd v @ [''Maximum mismatch''])))"
  by (simp add: check_maximum_def user_stats_of_def full_snapshot_def getitem_def bindE_def
      split: sum.splits)

lemma check_mean_full:
  "check_mean parse (user_stats_of d) (full_snapshot n mn mx me md ms) v =
     (case py_float parse (dict_get d ''mean'') of
        Inl err \<Rightarrow> Inl err
      | Inr a \<Rightarrow> if isclose a me tol_1e9 tol_1e9 then Inr v
                  else bindE (format_2f (dict_get d ''mean''))
                         (\<lambda>_. Inr (False, snd v @ [''Mean mismatch''])))"
  by (simp add: check_mean_def user_stats_of_def full_snapshot_def getitem_def bindE_def
      split: sum.splits)

lemma check_median_full:
  "check_median parse (user_stats_of d) (full_snapshot n mn mx me md ms) v =
     (case py_float parse (dict_get d ''median'') of
        Inl err \<Rightarrow> Inl err
      | Inr a \<Rightarrow> Inr (if isclose a md tol_1e9 tol_1e9 then v
                        else (False, snd v @ [''Median mismatch''])))"
  by (simp add: check_median_def user_stats_of_def full_snapshot_def getitem_def bindE_def
      split: sum.splits)

lemma check_mode_full:
  "check_mode parse (user_stats_of d) (full_snapshot n mn mx me md ms) v =
     (case py_float parse (dict_get d ''mode'') of
        Inl err \<Rightarrow> Inl err
      | Inr a \<Rightarrow> Inr (if list_ex (feq a) ms then v
                        else (False, snd v @ [''Mode mismatch''])))"
  by (simp add: check_mode_def user_stats_of_def full_snapshot_def getitem_def bindE_def
      split: sum.splits)

lemmas check_full =
  check_count_full check_minimum_full check_maximum_full check_mean_full check_median_full
  check_mode_full

lemma bindE_Inr_iff: "bindE m f = Inr y \<longleftrightarrow> (\<exists>x. m = Inr x \<and> f x = Inr y)"
  by (cases m) (simp_all add: bindE_def)

lemma check_count_step:
  assumes "check_count (user_stats_of d) (full_snapshot n mn mx me md ms) v = Inr w"
  shows "snd w = snd v @ (if py_eq (dict_get d ''count'') (PInt n) then [] else [''Count mismatch''])
         \<and> fst w = (fst v \<and> py_eq (dict_get d ''count'') (PInt n))"
  using assms by (auto simp add: check_count_full simp del: py_eq.simps split: if_splits)

lemma check_minimum_step:
  assumes "check_minimum parse (user_stats_of d) (full_snapshot n mn mx me md ms) v = Inr w"
  shows "snd w = snd v @ (if approx_eq parse (dict_get d ''minimum'') mn tol_1e9 (Fin 0) then []
                          else [''Minimum mismatch''])
         \<and> fst w = (fst v \<and> approx_eq parse (dict_get d ''minimum'') mn tol_1e9 (Fin 0))"
  using assms by (auto simp add: check_minimum_full approx_eq_def split: sum.splits if_splits)

lemma check_maximum_step:
  assumes "check_maximum parse (user_stats_of d) (full_snapshot n mn mx me md ms) v = Inr w"
  shows "snd w = snd v @ (if approx_eq parse (dict_get d ''maximum'') mx tol_1e9 (Fin 0) then []
                          else [''Maximum mismatch''])
         \<and> fst w = (fst v \<and> approx_eq parse (dict_get d ''maximum'') mx tol_1e9 (Fin 0))"
  using assms by (auto simp add: check_maximum_full approx_eq_def split: sum.splits if_splits)

lemma check_mean_step:
  assumes "check_mean parse (user_stats_of d) (full_snapshot n mn mx me md ms) v = Inr w"
  shows "snd w = snd v @ (if approx_eq parse (dict_get d ''mean'') me tol_1e9 tol_1e9 then []
                          else [''Mean mismatch''])
         \<and> fst w = (fst v \<and> approx_eq parse (dict_get d ''mean'') me tol_1e9 tol_1e9)"
  using assms
  by (auto simp add: check_mean_full approx_eq_def bindE_Inr_iff split: sum.splits if_splits)

lemma check_median_step:
  assumes "check_median parse (user_stats_of d) (full_snapshot n mn mx me md ms) v = Inr w"
  shows "snd w = snd v @ (if approx_eq parse (dict_get d ''median'') md tol_1e9 tol_1e9 then []
                          else [''Median mismatch''])
         \<and> fst w = (fst v \<and> approx_eq parse (dict_get d ''median'') md tol_1e9 tol_1e9)"
  using assms by (auto simp add: check_median_full approx_eq_def split: sum.splits if_splits)

lemma check_mode_step:
  assumes "check_mode parse (user_stats_of d) (full_snapshot n mn mx me md ms) v = Inr w"
  shows "snd w = snd v @ (if mode_accepted parse (dict_get d ''mode'') ms then []
                          else [''Mode mismatch''])
         \<and> fst w = (fst v \<and> mode_accepted parse (dict_get d ''mode'') ms)"
  using assms by (auto simp add: check_mode_full mode_accepted_def split: sum.splits if_splits)

lemma validate_steps:
  assumes "validate parse (user_stats_of d) (full_snapshot n mn mx me md ms) = Inr w"
  shows "snd w = mismatches parse d n mn mx me md ms
         \<and> fst w = six_checks parse d n mn mx me md ms"
proof -
  let ?us = "user_stats_of d" and ?st = "full_snapshot n mn mx me md ms"
  from assms obtain v1 v2 v3 v4 v5 where
    "check_count ?us ?st (True, []) = Inr v1"
    "check_minimum parse ?us ?st v1 = Inr v2"
    "check_maximum parse ?us ?st v2 = Inr v3"
    "check_mean parse ?us ?st v3 = Inr v4"
    "check_median parse ?us ?st v4 = Inr v5"
    "check_mode parse ?us ?st v5 = Inr w"
    unfolding validate_def bindE_Inr_iff by blast
  from check_count_step[OF this(1)] check_minimum_step[OF this(2)] check_maximum_step[OF this(3)]
    check_mean_step[OF this(4)] check_median_step[OF this(5)] check_mode_step[OF this(6)]
  show ?thesis
    by (simp add: mismatches_def six_checks_def del: py_eq.simps)
qed



lemma validate_six_checks:
  assumes "six_checks parse d n mn mx me md ms"
  shows "validate parse (user_stats_of d) (full_snapshot n mn mx me md ms) = Inr (True, [])"
proof -
  from assms obtain a1 a2 a3 a4 a5 where
    "py_float parse (dict_get d ''minimum'') = Inr a1" "isclose a1 mn tol_1e9 (Fin 0)"
    "py_float parse (dict_get d ''maximum'') = Inr a2" "isclose a2 mx tol_1e9 (Fin 0)"
    "py_float parse (dict_get d ''mean'') = Inr a3" "isclose a3 me tol_1e9 tol_1e9"
    "py_float parse (dict_get d ''median'') = Inr a4" "isclose a4 md tol_1e9 tol_1e9"
    "py_float parse (dict_get d ''mode'') = Inr a5" "list_ex (feq a5) ms"
    unfolding six_checks_def approx_eq_def mode_accepted_def
    by (auto split: sum.splits simp del: py_eq.simps)
  moreover have "py_eq (dict_get d ''count'') (PInt n)"
    using assms by (simp add: six_checks_def del: py_eq.simps)
  ultimately show ?thesis
    by (simp add: validate_def check_full bindE_def del: py_eq.simps)
qed

lemma correct_payload_iff:
  "correct_payload parse d (full_snapshot n mn mx me md ms) \<longleftrightarrow> six_checks parse d n mn mx me md ms"
proof
  assume "correct_payload parse d (full_snapshot n mn mx me md ms)"
  then obtain errs where
    "validate parse (user_stats_of d) (full_snapshot n mn mx me md ms) = Inr (True, errs)"
    by (auto simp: correct_payload_def split: sum.splits)
  from validate_steps[OF this] show "six_checks parse d n mn mx me md ms"
    by simp
next
  assume "six_checks parse d n mn mx me md ms"
  from validate_six_checks[OF this] show "correct_payload parse d (full_snapshot n mn mx me md ms)"
    by (simp add: correct_payload_def)
qed


lemma well_formed_wrong: "well_formed wrong_payload ''k1''"
  by (simp add: well_formed_def wrong_payload_def dict_get_def stat_fields_def)

lemma validate_wrong:
  "validate parse (user_stats_of wrong_payload) example_stats =
     Inr (False, [''Count mismatch'', ''Mode mismatch''])"
  by (simp add: validate_defs user_stats_of_def wrong_payload_def dict_get_def
      example_stats_def float_of_int_exact isclose_def)



subsection \<open>The statistics engine on non-empty data\<close>

lemma py_min_eq: "xs \<noteq> [] \<Longrightarrow> py_min xs = Inr (Min (set xs))"
  by (cases xs) (simp_all add: py_min_def Min.set_eq_fold[symmetric])

lemma py_max_eq: "xs \<noteq> [] \<Longrightarrow> py_max xs = Inr (Max (set xs))"
  by (cases xs) (simp_all add: py_max_def Max.set_eq_fold[symmetric])

lemma sum_list_lower: "(\<And>x. x \<in> set xs \<Longrightarrow> a \<le> x) \<Longrightarrow> a * int (length xs) \<le> sum_list xs"
  by (induction xs) (auto simp: algebra_simps intro: add_mono)

lemma sum_list_upper: "(\<And>x. x \<in> set xs \<Longrightarrow> x \<le> b) \<Longrightarrow> sum_list xs \<le> b * int (length xs)"
  by (induction xs) (auto simp: algebra_simps intro: add_mono)

lemma mean_between:
  assumes "xs \<noteq> []"
  shows "of_int (Min (set xs)) \<le> (of_int (sum_list xs) / of_nat (length xs) :: rat)"
    and "(of_int (sum_list xs) / of_nat (length xs) :: rat) \<le> of_int (Max (set xs))"
proof -
  have n: "(0::rat) < of_nat (length xs)" using assms by simp
  have "Min (set xs) * int (length xs) \<le> sum_list xs"
    by (rule sum_list_lower) simp
  then have "(of_int (Min (set xs) * int (length xs)) :: rat) \<le> of_int (sum_list xs)"
    by (simp only: of_int_le_iff)
  then show "of_int (Min (set xs)) \<le> (of_int (sum_list xs) / of_nat (length xs) :: rat)"
    using n by (simp add: pos_le_divide_eq)
  have "sum_list xs \<le> Max (set xs) * int (length xs)"
    by (rule sum_list_upper) simp
  then have "(of_int (sum_list xs) :: rat) \<le> of_int (Max (set xs) * int (length xs))"
    by (simp only: of_int_le_iff)
  then show "(of_int (sum_list xs) / of_nat (length xs) :: rat) \<le> of_int (Max (set xs))"
    using n by (simp add: pos_divide_le_eq)
qed

lemma Min_Max_exact:
  assumes "xs \<noteq> []" "\<forall>x \<in> set xs. exact_float x"
  shows "exact_float (Min (set xs))" "exact_float (Max (set xs))"
proof -
  have "Min (set xs) \<in> set xs" "Max (set xs) \<in> set xs"
    using assms(1) by (simp_all add: Min_in Max_in)
  then show "exact_float (Min (set xs))" "exact_float (Max (set xs))"
    using assms(2) by blast+
qed

lemma mean_float:
  assumes "xs \<noteq> []" "\<forall>x \<in> set xs. exact_float x"
  shows "\<exists>me. bindE (statistics_mean xs) py_float_num = Inr (Fin me)
            \<and> of_int (Min (set xs)) \<le> me \<and> me \<le> of_int (Max (set xs))"
proof -
  let ?q = "of_int (sum_list xs) / of_nat (length xs) :: rat"
  have "bindE (statistics_mean xs) py_float_num = float_of_rat ?q"
  proof (cases "int (length xs) dvd sum_list xs")
    case True
    have "?q = of_int (sum_list xs div int (length xs))"
      using True assms(1) by (auto elim!: dvdE)
    then show ?thesis
      using True assms(1) by (simp add: statistics_mean_def bindE_def float_of_int_def)
  next
    case False
    then show ?thesis
      using assms(1) by (simp add: statistics_mean_def bindE_def split: sum.splits)
  qed
  moreover from float_of_rat_between[OF mean_between[OF assms(1)] Min_Max_exact[OF assms]]
  have "float_of_rat ?q = Inr (Fin (rdv ?q))"
    "of_int (Min (set xs)) \<le> rdv ?q" "rdv ?q \<le> of_int (Max (set xs))"
    by simp_all
  ultimately show ?thesis by auto
qed

lemma median_float:
  assumes "xs \<noteq> []" "\<forall>x \<in> set xs. exact_float x"
  shows "\<exists>md. bindE (statistics_median xs) py_float_num = Inr (Fin md)
            \<and> of_int (Min (set xs)) \<le> md \<and> md \<le> of_int (Max (set xs))"
proof -
  define data where "data = sort xs"
  define n where "n = length data"
  have n: "0 < n" using assms(1) by (simp add: n_def data_def)
  have ne: "data \<noteq> []" using n by (auto simp: n_def)
  have mem: "data ! i \<in> set xs" if "i < n" for i
    using that nth_mem[of i data] by (simp add: n_def data_def)
  have bnd: "Min (set xs) \<le> data ! i" "data ! i \<le> Max (set xs)" if "i < n" for i
    using mem[OF that] by simp_all
  show ?thesis
  proof (cases "n mod 2 = 1")
    case True
    let ?m = "data ! (n div 2)"
    have i: "n div 2 < n" using n by simp
    have "float_of_int ?m = Inr (Fin (of_int ?m))"
      using mem[OF i] assms(2) by (auto simp: exact_float_def)
    then have "bindE (statistics_median xs) py_float_num = Inr (Fin (of_int ?m))"
      using True n ne
      by (simp add: statistics_median_def Let_def bindE_def flip: data_def n_def)
    then show ?thesis using bnd[OF i] by auto
  next
    case False
    then have ev: "n mod 2 = 0" by simp
    let ?i = "n div 2"
    have i: "?i < n" "?i - 1 < n" using n by simp_all
    let ?q = "of_int (data ! (?i - 1) + data ! ?i) / of_int 2 :: rat"
    have lo: "of_int (Min (set xs)) \<le> ?q"
    proof -
      have "2 * Min (set xs) \<le> data ! (?i - 1) + data ! ?i"
        using bnd(1)[OF i(1)] bnd(1)[OF i(2)] by linarith
      then have "(of_int (2 * Min (set xs)) :: rat) \<le> of_int (data ! (?i - 1) + data ! ?i)"
        by (simp only: of_int_le_iff)
      then show ?thesis by simp
    qed
    have hi: "?q \<le> of_int (Max (set xs))"
    proof -
      have "data ! (?i - 1) + data ! ?i \<le> 2 * Max (set xs)"
        using bnd(2)[OF i(1)] bnd(2)[OF i(2)] by linarith
      then have "(of_int (data ! (?i - 1) + data ! ?i) :: rat) \<le> of_int (2 * Max (set xs))"
        by (simp only: of_int_le_iff)
      then show ?thesis by simp
    qed
    from float_of_rat_between[OF lo hi Min_Max_exact[OF assms]]
    have "float_of_rat ?q = Inr (Fin (rdv ?q))"
      "of_int (Min (set xs)) \<le> rdv ?q" "rdv ?q \<le> of_int (Max (set xs))"
      by simp_all
    moreover have "bindE (statistics_median xs) py_float_num = float_of_rat ?q"
      using ev n ne
      by (simp add: statistics_median_def Let_def bindE_def py_truediv_def
          flip: data_def n_def split: sum.splits)
    ultimately show ?thesis by auto
  qed
qed

subsection \<open>Counting occurrences\<close>

lemma counter_add_keys: "fst ` set (counter_add x kcs) = insert x (fst ` set kcs)"
  by (induction x kcs rule: counter_add.induct) auto

lemma counter_add_distinct:
  "distinct (map fst kcs) \<Longrightarrow> distinct (map fst (counter_add x kcs))"
proof (induction x kcs rule: counter_add.induct)
  case (1 x)
  then show ?case by simp
next
  case (2 x k c kcs)
  then show ?case
    using counter_add_keys[of x kcs] by (auto simp: image_iff)
qed

lemma counter_add_counted:
  "counted (counter_add x kcs) y = (if y = x then Suc (counted kcs y) else counted kcs y)"
  by (induction x kcs rule: counter_add.induct) (auto simp: counted_def)

lemma counter_add_positive:
  "(\<forall>(k, c) \<in> set kcs. 0 < c) \<Longrightarrow> (\<forall>(k, c) \<in> set (counter_add x kcs). 0 < c)"
  by (induction x kcs rule: counter_add.induct) auto

lemma fold_counter:
  assumes "distinct (map fst acc)" "\<forall>(k, c) \<in> set acc. 0 < c"
  shows "distinct (map fst (fold counter_add xs acc))
       \<and> (\<forall>(k, c) \<in> set (fold counter_add xs acc). 0 < c)
       \<and> fst ` set (fold counter_add xs acc) = fst ` set acc \<union> set xs
       \<and> (\<forall>y. counted (fold counter_add xs acc) y = counted acc y + count_list xs y)"
  using assms
proof (induction xs arbitrary: acc)
  case Nil
  then show ?case by simp
next
  case (Cons x xs)
  have d: "distinct (map fst (counter_add x acc))"
    using Cons.prems(1) by (rule counter_add_distinct)
  have p: "\<forall>(k, c) \<in> set (counter_add x acc). 0 < c"
    using Cons.prems(2) by (rule counter_add_positive)
  from Cons.IH[OF d p] show ?case
    by (auto simp: counter_add_keys counter_add_counted)
qed

lemma Counter_props:
  "distinct (map fst (Counter xs))"
  "fst ` set (Counter xs) = set xs"
  "counted (Counter xs) y = count_list xs y"
  "\<forall>(k, c) \<in> set (Counter xs). 0 < c"
  using fold_counter[of "[]" xs] by (simp_all add: Counter_def counted_def)

lemma Counter_entry:
  "(k, c) \<in> set (Counter xs) \<longleftrightarrow> k \<in> set xs \<and> c = count_list xs k"
proof
  assume kc: "(k, c) \<in> set (Counter xs)"
  then have "map_of (Counter xs) k = Some c"
    using Counter_props(1)[of xs] by simp
  then have "counted (Counter xs) k = c" by (simp add: counted_def)
  moreover have "k \<in> fst ` set (Counter xs)" using kc by force
  ultimately show "k \<in> set xs \<and> c = count_list xs k"
    by (simp add: Counter_props)
next
  assume a: "k \<in> set xs \<and> c = count_list xs k"
  then have "k \<in> fst ` set (Counter xs)" by (simp add: Counter_props)
  then obtain c' where kc: "(k, c') \<in> set (Counter xs)" by auto
  then have "map_of (Counter xs) k = Some c'"
    using Counter_props(1)[of xs] by simp
  then have "counted (Counter xs) k = c'" by (simp add: counted_def)
  then have "c' = c" using a by (simp add: Counter_props)
  then show "(k, c) \<in> set (Counter xs)" using kc by simp
qed

lemma Counter_values: "set (map snd (Counter xs)) = count_list xs ` set xs"
  by (auto simp: Counter_entry image_iff) (metis Counter_entry snd_conv)

lemma Counter_nonempty: "xs \<noteq> [] \<Longrightarrow> Counter xs \<noteq> []"
  using Counter_props(2)[of xs] by auto

lemma max_freq_eq:
  "xs \<noteq> [] \<Longrightarrow> py_max (map snd (Counter xs)) = Inr (Max (count_list xs ` set xs))"
  using py_max_eq[of "map snd (Counter xs)"] Counter_nonempty[of xs]
  by (simp add: Counter_values del: set_map)

lemma modes_eq:
  "sort (map fst (filter (\<lambda>(num, freq). freq = Max (count_list xs ` set xs)) (Counter xs)))
     = most_frequent xs"
proof -
  let ?M = "Max (count_list xs ` set xs)"
  let ?l = "map fst (filter (\<lambda>(num, freq). freq = ?M) (Counter xs))"
  have d: "distinct ?l"
    using Counter_props(1)[of xs] by (simp add: distinct_map_filter)
  have s: "set ?l = {x \<in> set xs. count_list xs x = ?M}"
    by (auto simp: Counter_entry image_iff)
  show ?thesis
    unfolding most_frequent_def s[symmetric]
    by (rule sorted_distinct_set_unique) (simp_all add: d)
qed

lemma most_frequent_props:
  assumes "xs \<noteq> []"
  shows "most_frequent xs \<noteq> []" "sorted (most_frequent xs)" "distinct (most_frequent xs)"
    "set (most_frequent xs) = {x \<in> set xs. count_list xs x = Max (count_list xs ` set xs)}"
proof -
  let ?S = "{x \<in> set xs. count_list xs x = Max (count_list xs ` set xs)}"
  have f: "finite ?S" by simp
  have "Max (count_list xs ` set xs) \<in> count_list xs ` set xs"
    using assms by (intro Max_in) simp_all
  then have ne: "?S \<noteq> {}" by auto
  show "set (most_frequent xs) = ?S" by (simp add: most_frequent_def)
  then show "most_frequent xs \<noteq> []" using ne by auto
  show "sorted (most_frequent xs)" "distinct (most_frequent xs)"
    by (simp_all add: most_frequent_def)
qed

lemma mapE_float_exact:
  "\<forall>m \<in> set ms. exact_float m \<Longrightarrow> mapE float_of_int ms = Inr (map (\<lambda>m. Fin (of_int m)) ms)"
  by (induction ms) (simp_all add: bindE_def exact_float_def)

text \<open>
  The snapshot of a non-empty dataset of ints that \<^verbatim>\<open>float\<close> converts exactly: count,
  exact minimum and maximum, a mean and a median between them, and the most frequent
  values.
\<close>

lemma calculate_statistics_exact:
  assumes "xs \<noteq> []" "\<forall>x \<in> set xs. exact_float x"
  shows "\<exists>me md. calculate_statistics xs =
           Inr (full_snapshot (int (length xs)) (Fin (of_int (Min (set xs))))
                  (Fin (of_int (Max (set xs)))) (Fin me) (Fin md)
                  (map (\<lambda>m. Fin (of_int m)) (most_frequent xs)))
         \<and> of_int (Min (set xs)) \<le> me \<and> me \<le> of_int (Max (set xs))
         \<and> of_int (Min (set xs)) \<le> md \<and> md \<le> of_int (Max (set xs))"
proof -
  from mean_float[OF assms] obtain me where
    me: "bindE (statistics_mean xs) py_float_num = Inr (Fin me)"
      "of_int (Min (set xs)) \<le> me" "me \<le> of_int (Max (set xs))"
    by blast
  from median_float[OF assms] obtain md where
    md: "bindE (statistics_median xs) py_float_num = Inr (Fin md)"
      "of_int (Min (set xs)) \<le> md" "md \<le> of_int (Max (set xs))"
    by blast
  obtain mean where mean: "statistics_mean xs = Inr mean" "py_float_num mean = Inr (Fin me)"
    using me(1) by (auto simp: bindE_def split: sum.splits)
  obtain median where median: "statistics_median xs = Inr median" "py_float_num median = Inr (Fin md)"
    using md(1) by (auto simp: bindE_def split: sum.splits)
  have modes: "mapE float_of_int (most_frequent xs) = Inr (map (\<lambda>m. Fin (of_int m)) (most_frequent xs))"
    using assms(2) most_frequent_props(4)[OF assms(1)] by (intro mapE_float_exact) auto
  have "calculate_statistics xs =
           Inr (full_snapshot (int (length xs)) (Fin (of_int (Min (set xs))))
                  (Fin (of_int (Max (set xs)))) (Fin me) (Fin md)
                  (map (\<lambda>m. Fin (of_int m)) (most_frequent xs)))"
    using assms(1) Min_Max_exact[OF assms, unfolded exact_float_def]
    by (simp add: calculate_statistics_def py_min_eq py_max_eq mean median max_freq_eq
        modes_eq modes bindE_def full_snapshot_def Let_def)
  then show ?thesis using me(2,3) md(2,3) by blast
qed

subsection \<open>Bounds and modes of a snapshot\<close>

lemma snapshot_item_exact:
  assumes "calculate_statistics xs = Inr (full_snapshot n mn mx me md ms)"
  shows "snapshot_item xs ''count'' = Inr (PInt n)"
    "snapshot_item xs ''minimum'' = Inr (PFloat mn)"
    "snapshot_item xs ''maximum'' = Inr (PFloat mx)"
    "snapshot_item xs ''mean'' = Inr (PFloat me)"
    "snapshot_item xs ''median'' = Inr (PFloat md)"
    "snapshot_item xs ''modes'' = Inr (PFloats ms)"
  by (simp_all add: snapshot_item_def assms bindE_def getitem_def full_snapshot_def)

text \<open>
  Claim C7, as amended.  For every non-empty sequence of ints that \<^verbatim>\<open>float\<close> converts
  without rounding (every int of magnitude at most \<open>2 ^ 53\<close> is one, by
  \<open>exact_float_small\<close>), the snapshot holds a minimum that is at most every element, a
  maximum that is at least every element, and a median between the two.
\<close>

theorem minimum_median_maximum:
  assumes "xs \<noteq> []" and "\<forall>x \<in> set xs. exact_float x"
  shows "\<exists>mn mx md.
           snapshot_item xs ''minimum'' = Inr (PFloat (Fin mn))
         \<and> snapshot_item xs ''maximum'' = Inr (PFloat (Fin mx))
         \<and> snapshot_item xs ''median'' = Inr (PFloat (Fin md))
         \<and> (\<forall>x \<in> set xs. mn \<le> of_int x \<and> of_int x \<le> mx)
         \<and> mn \<le> md \<and> md \<le> mx"
proof -
  from calculate_statistics_exact[OF assms] obtain me md where
    c: "calculate_statistics xs =
           Inr (full_snapshot (int (length xs)) (Fin (of_int (Min (set xs))))
                  (Fin (of_int (Max (set xs)))) (Fin me) (Fin md)
                  (map (\<lambda>m. Fin (of_int m)) (most_frequent xs)))"
    and md: "of_int (Min (set xs)) \<le> md" "md \<le> of_int (Max (set xs))"
    by blast
  have "\<forall>x \<in> set xs. (of_int (Min (set xs)) :: rat) \<le> of_int x
          \<and> (of_int x :: rat) \<le> of_int (Max (set xs))"
    by simp
  with snapshot_item_exact[OF c] md show ?thesis by blast
qed

theorem minimum_median_maximum_witness:
  "\<exists>mn mx md.
       snapshot_item [10, 20, 15, 20, 25] ''minimum'' = Inr (PFloat (Fin mn))
     \<and> snapshot_item [10, 20, 15, 20, 25] ''maximum'' = Inr (PFloat (Fin mx))
     \<and> snapshot_item [10, 20, 15, 20, 25] ''median'' = Inr (PFloat (Fin md))
     \<and> mn \<le> 10 \<and> 25 \<le> mx \<and> mn \<le> md \<and> md \<le> mx"
proof -
  have 1: "[10, 20, 15, 20, 25] \<noteq> ([] :: int list)" by simp
  have 2: "\<forall>x \<in> set [10, 20, 15, 20, 25 :: int]. exact_float x"
    by (simp add: exact_float_small)
  from minimum_median_maximum[OF 1 2] obtain mn mx md where
    "snapshot_item [10, 20, 15, 20, 25] ''minimum'' = Inr (PFloat (Fin mn))"
    "snapshot_item [10, 20, 15, 20, 25] ''maximum'' = Inr (PFloat (Fin mx))"
    "snapshot_item [10, 20, 15, 20, 25] ''median'' = Inr (PFloat (Fin md))"
    "\<forall>x \<in> set [10, 20, 15, 20, 25 :: int]. mn \<le> of_int x \<and> of_int x \<le> mx"
    "mn \<le> md" "md \<le> mx"
    by blast
  moreover from this(4) have "mn \<le> 10" "25 \<le> mx" by simp_all
  ultimately show ?thesis by blast
qed

text \<open>
  Beyond \<open>2 ^ 53\<close> the conversion \<^verbatim>\<open>float(maximum)\<close> rounds: the maximum stored for
  the one-element dataset \<open>[2 ^ 53 + 1]\<close> is \<open>2 ^ 53\<close>, below the element.
\<close>

lemma round_large_int: "round_double 9007199254740993 = Fin 9007199254740992"
  by code_simp

lemma float_of_large_int: "float_of_int 9007199254740993 = Inr (Fin 9007199254740992)"
  by (simp add: float_of_int_def float_of_rat_def round_large_int)

lemma calculate_statistics_large:
  "calculate_statistics [9007199254740993] =
     Inr (full_snapshot 1 (Fin 9007199254740992) (Fin 9007199254740992)
            (Fin 9007199254740992) (Fin 9007199254740992) [Fin 9007199254740992])"
  by (simp add: calculate_statistics_def py_min_def py_max_def statistics_mean_def
      statistics_median_def Counter_def bindE_def float_of_large_int full_snapshot_def)

theorem maximum_counterexample:
  "snapshot_item [9007199254740993] ''maximum'' = Inr (PFloat (Fin 9007199254740992))
   \<and> \<not> (of_int 9007199254740993 \<le> (9007199254740992 :: rat))"
  using snapshot_item_exact(3)[OF calculate_statistics_large] by simp

text \<open>
  Claim C8, as amended.  For every non-empty sequence of ints that \<^verbatim>\<open>float\<close> converts
  without rounding (every int of magnitude at most \<open>2 ^ 53\<close> is one), the modes of the
  snapshot are the floats of a non-empty, ascending list of distinct values: exactly the
  values of the input whose number of occurrences is the largest one.
\<close>

theorem modes_most_frequent:
  assumes "xs \<noteq> []" and "\<forall>x \<in> set xs. exact_float x"
  shows "\<exists>ms. snapshot_item xs ''modes'' = Inr (PFloats (map (\<lambda>m. Fin (of_int m)) ms))
         \<and> ms \<noteq> [] \<and> sorted ms \<and> distinct ms
         \<and> set ms = {x \<in> set xs. count_list xs x = Max (count_list xs ` set xs)}"
proof -
  from calculate_statistics_exact[OF assms] obtain me md where
    c: "calculate_statistics xs =
           Inr (full_snapshot (int (length xs)) (Fin (of_int (Min (set xs))))
                  (Fin (of_int (Max (set xs)))) (Fin me) (Fin md)
                  (map (\<lambda>m. Fin (of_int m)) (most_frequent xs)))"
    by blast
  from snapshot_item_exact(6)[OF c] most_frequent_props[OF assms(1)] show ?thesis
    by blast
qed

theorem modes_most_frequent_witness:
  "\<exists>ms. snapshot_item tied_example ''modes'' = Inr (PFloats (map (\<lambda>m. Fin (of_int m)) ms))
       \<and> ms \<noteq> [] \<and> sorted ms \<and> distinct ms
       \<and> set ms = {x \<in> set tied_example.
                     count_list tied_example x = Max (count_list tied_example ` set tied_example)}"
proof -
  have 1: "tied_example \<noteq> []" by (simp add: tied_example_def)
  have 2: "\<forall>x \<in> set tied_example. exact_float x"
    by (simp add: tied_example_def exact_float_small)
  from modes_most_frequent[OF 1 2] show ?thesis .
qed

text \<open>
  Beyond \<open>2 ^ 53\<close> a stored mode need not be a value of the input: for \<open>[2 ^ 53 + 1]\<close>
  it is \<open>2 ^ 53\<close>, which does not occur.
\<close>

theorem modes_counterexample:
  "snapshot_item [9007199254740993] ''modes'' = Inr (PFloats [Fin 9007199254740992])
   \<and> count_list [9007199254740993 :: int] 9007199254740992 = 0"
  using snapshot_item_exact(6)[OF calculate_statistics_large] by simp

subsection \<open>The snapshot of the empty dataset\<close>

text \<open>
  Claim C9, as amended.  For the empty sequence the snapshot holds the count 0 and
  \<^verbatim>\<open>None\<close> for minimum, maximum, mean and median; no entry other than the count holds
  anything but \<^verbatim>\<open>None\<close>, so the snapshot holds no collection of modes, not even an
  empty one.
\<close>

theorem empty_snapshot:
  "snapshot_item [] ''count'' = Inr (PInt 0)
   \<and> snapshot_item [] ''minimum'' = Inr PNone
   \<and> snapshot_item [] ''maximum'' = Inr PNone
   \<and> snapshot_item [] ''mean'' = Inr PNone
   \<and> snapshot_item [] ''median'' = Inr PNone
   \<and> (\<exists>s. calculate_statistics [] = Inr s \<and> list_all (\<lambda>(k, v). k = ''count'' \<or> v = PNone) s)"
  by (simp add: snapshot_item_def calculate_statistics_def bindE_def getitem_def)

text \<open>
  The key \<^verbatim>\<open>modes\<close> is missing from that snapshot, and what it holds under
  \<^verbatim>\<open>mode\<close> is \<^verbatim>\<open>None\<close>: under neither name is there an empty collection.
\<close>

theorem empty_modes_counterexample:
  "snapshot_item [] ''modes'' = Inl KeyError
   \<and> snapshot_item [] ''mode'' = Inr PNone
   \<and> snapshot_item [] ''modes'' \<noteq> Inr (PFloats [])
   \<and> snapshot_item [] ''mode'' \<noteq> Inr (PFloats [])"
  by (simp add: snapshot_item_def calculate_statistics_def bindE_def getitem_def)

subsection \<open>Issued challenges\<close>

lemma randint_range: "a \<le> b \<Longrightarrow> a \<le> randint a b r \<and> randint a b r \<le> b"
proof -
  assume "a \<le> b"
  then have m: "0 < b - a + 1" by simp
  from pos_mod_sign[OF m, of "int r"] pos_mod_bound[OF m, of "int r"]
  show ?thesis unfolding randint_def by linarith
qed

lemma drawn_numbers_length: "5 \<le> length (drawn_numbers rnd)" "length (drawn_numbers rnd) \<le> 15"
proof -
  have "5 \<le> randint 5 15 (rnd 0) \<and> randint 5 15 (rnd 0) \<le> 15"
    by (rule randint_range) simp
  then have "5 \<le> nat (randint 5 15 (rnd 0))" "nat (randint 5 15 (rnd 0)) \<le> 15"
    by linarith+
  then show "5 \<le> length (drawn_numbers rnd)" "length (drawn_numbers rnd) \<le> 15"
    by (simp_all add: drawn_numbers_def)
qed

lemma drawn_numbers_range: "x \<in> set (drawn_numbers rnd) \<Longrightarrow> 1 \<le> x \<and> x \<le> 100"
  using randint_range[of 1 100] by (auto simp: drawn_numbers_def)

lemma drawn_numbers_nonempty: "drawn_numbers rnd \<noteq> []"
  using drawn_numbers_length(1)[of rnd] by auto

lemma small_numbers_snapshot:
  assumes "xs \<noteq> []" "\<forall>x \<in> set xs. 1 \<le> x \<and> x \<le> (100::int)"
  shows "\<exists>mn mx me md ms.
           calculate_statistics xs =
             Inr (full_snapshot (int (length xs)) (Fin mn) (Fin mx) (Fin me) (Fin md) ms)
         \<and> ms \<noteq> []"
proof -
  have "\<forall>x \<in> set xs. exact_float x"
  proof
    fix x assume "x \<in> set xs"
    then have "1 \<le> x \<and> x \<le> 100" using assms(2) by blast
    then show "exact_float x" by (intro exact_float_small) simp
  qed
  from calculate_statistics_exact[OF assms(1) this] most_frequent_props(1)[OF assms(1)]
  show ?thesis by (metis map_is_Nil_conv)
qed

lemma step1_issue:
  assumes "e \<noteq> []"
  shows "\<exists>stats. calculate_statistics (drawn_numbers rnd) = Inr stats
       \<and> step1_get_challenge (Some e) secret_key rnd s =
           (Response (JObj [(''secret_key'', JStr secret_key),
                            (''numbers'', JArr (map JInt (drawn_numbers rnd)))]) 200,
            s(secret_key \<mapsto>
               \<lparr>email = e, numbers_y = drawn_numbers rnd, correct_stats = stats,
                step2_attempts = 0, last_correct_submission_data = None\<rparr>))"
proof -
  have r: "\<forall>x \<in> set (drawn_numbers rnd). 1 \<le> x \<and> x \<le> 100"
    using drawn_numbers_range by blast
  from small_numbers_snapshot[OF drawn_numbers_nonempty r]
  obtain stats where "calculate_statistics (drawn_numbers rnd) = Inr stats" by blast
  then show ?thesis
    using assms by (simp add: step1_get_challenge_def Let_def flip: drawn_numbers_def)
qed

lemma good_drawn:
  assumes "calculate_statistics (drawn_numbers rnd) = Inr stats"
  shows "good_challenge \<lparr>email = e, numbers_y = drawn_numbers rnd, correct_stats = stats,
            step2_attempts = n, last_correct_submission_data = p\<rparr>"
proof -
  have r: "\<forall>x \<in> set (drawn_numbers rnd). 1 \<le> x \<and> x \<le> 100"
    using drawn_numbers_range by blast
  from small_numbers_snapshot[OF drawn_numbers_nonempty r] assms
  show ?thesis
    using drawn_numbers_length[of rnd] r
    by (auto simp add: good_challenge_def list_all_iff)
qed

lemma step1_store:
  "snd (step1_get_challenge email_arg secret_key rnd s) = s
   \<or> (\<exists>c. snd (step1_get_challenge email_arg secret_key rnd s) = s(secret_key \<mapsto> c)
          \<and> good_challenge c \<and> payload_ok c)"
proof (cases "\<exists>e. email_arg = Some e \<and> e \<noteq> []")
  case True
  then obtain e where e: "email_arg = Some e" "e \<noteq> []" by blast
  from step1_issue[OF e(2), of rnd secret_key s] obtain stats where
    "calculate_statistics (drawn_numbers rnd) = Inr stats"
    "snd (step1_get_challenge (Some e) secret_key rnd s) =
       s(secret_key \<mapsto> \<lparr>email = e, numbers_y = drawn_numbers rnd, correct_stats = stats,
                           step2_attempts = 0, last_correct_submission_data = None\<rparr>)"
    by force
  then show ?thesis
    using good_drawn[of rnd stats e 0 None] by (auto simp: e(1) payload_ok_def)
next
  case False
  then show ?thesis
    by (auto simp: step1_get_challenge_def split: option.splits)
qed

text \<open>
  A submission changes at most the challenge it names, and of that challenge only the
  attempt counter and the stored payload, which if replaced is the (true) request body.
\<close>

lemma step2_store:
  "snd (step2_submit_statistics parse body s) = s
   \<or> (\<exists>k c n p. s k = Some c
          \<and> snd (step2_submit_statistics parse body s) =
               s(k \<mapsto> c\<lparr>step2_attempts := n, last_correct_submission_data := p\<rparr>)
          \<and> (p = last_correct_submission_data c \<or> (\<exists>d. p = Some d \<and> truthy d)))"
proof (cases "read_request body")
  case (Inl resp)
  then show ?thesis by (simp add: step2_submit_statistics_def)
next
  case (Inr t)
  obtain data secret_key user_stats where t: "t = (data, secret_key, user_stats)"
    by (cases t)
  have td: "truthy data"
    using Inr unfolding t read_request_def
    by (auto split: request_body.splits if_splits json.splits)
  show ?thesis
  proof (cases "challenges_get s secret_key")
    case (Inl err)
    then show ?thesis by (simp add: step2_submit_statistics_def Inr t)
  next
    case g: (Inr found)
    show ?thesis
    proof (cases found)
      case None
      then show ?thesis by (simp add: step2_submit_statistics_def Inr t g)
    next
      case (Some kc)
      obtain k c where kc: "kc = (k, c)" by (cases kc)
      have sk: "s k = Some c"
        using g unfolding Some kc by (cases secret_key) auto
      let ?r = "snd (step2_submit_statistics parse body s)"
      have res: "?r = s \<or> ?r = s(k \<mapsto> c\<lparr>step2_attempts := step2_attempts c + 1\<rparr>)
          \<or> ?r = s(k \<mapsto> c\<lparr>step2_attempts := step2_attempts c + 1,
                                 last_correct_submission_data := Some data\<rparr>)"
        by (auto simp add: step2_submit_statistics_def Inr t g Some kc Let_def split: sum.splits)
      have a: "c\<lparr>step2_attempts := step2_attempts c + 1\<rparr>
                 = c\<lparr>step2_attempts := step2_attempts c + 1,
                       last_correct_submission_data := last_correct_submission_data c\<rparr>"
        by simp
      from res show ?thesis
      proof (elim disjE)
        assume "?r = s"
        then show ?thesis by simp
      next
        assume "?r = s(k \<mapsto> c\<lparr>step2_attempts := step2_attempts c + 1\<rparr>)"
        then have "?r = s(k \<mapsto> c\<lparr>step2_attempts := step2_attempts c + 1,
                       last_correct_submission_data := last_correct_submission_data c\<rparr>)"
          using a by simp
        then show ?thesis using sk by blast
      next
        assume "?r = s(k \<mapsto> c\<lparr>step2_attempts := step2_attempts c + 1,
                                 last_correct_submission_data := Some data\<rparr>)"
        then show ?thesis using sk td by blast
      qed
    qed
  qed
qed

lemma reachable_good:
  assumes "reachable s" "s k = Some c"
  shows "good_challenge c \<and> payload_ok c"
  using assms
proof (induction arbitrary: k c rule: reachable.induct)
  case start
  then show ?case by (simp add: no_challenges_def)
next
  case (issue s email_arg secret_key rnd)
  from step1_store[of email_arg secret_key rnd s] issue show ?case
    by (auto split: if_splits)
next
  case (submit s parse body)
  from step2_store[of parse body s] show ?case
  proof
    assume "snd (step2_submit_statistics parse body s) = s"
    then show ?thesis using submit by simp
  next
    assume "\<exists>k c n p. s k = Some c
          \<and> snd (step2_submit_statistics parse body s) =
               s(k \<mapsto> c\<lparr>step2_attempts := n, last_correct_submission_data := p\<rparr>)
          \<and> (p = last_correct_submission_data c \<or> (\<exists>d. p = Some d \<and> truthy d))"
    then obtain k' c' n p where
      s: "s k' = Some c'"
      "snd (step2_submit_statistics parse body s) =
               s(k' \<mapsto> c'\<lparr>step2_attempts := n, last_correct_submission_data := p\<rparr>)"
      "p = last_correct_submission_data c' \<or> (\<exists>d. p = Some d \<and> truthy d)"
      by blast
    from submit.IH[OF s(1)] have g: "good_challenge c'" "payload_ok c'" by simp_all
    show ?thesis
    proof (cases "k = k'")
      case True
      then have "c = c'\<lparr>step2_attempts := n, last_correct_submission_data := p\<rparr>"
        using submit.prems s(2) by simp
      then show ?thesis
        using g s(3) by (auto simp: good_challenge_def payload_ok_def)
    next
      case False
      then have "s k = Some c" using submit.prems s(2) by simp
      then show ?thesis by (rule submit.IH)
    qed
  qed
qed

subsection \<open>Where the comparison can raise\<close>

lemma bindE_Inl_iff: "bindE m f = Inl e \<longleftrightarrow> m = Inl e \<or> (\<exists>x. m = Inr x \<and> f x = Inl e)"
  by (cases m) (simp_all add: bindE_def)

lemma check_count_raises:
  "check_count (user_stats_of d) (full_snapshot n mn mx me md ms) v \<noteq> Inl err"
  by (simp add: check_count_full del: py_eq.simps)

lemma check_minimum_raises:
  "check_minimum parse (user_stats_of d) (full_snapshot n mn mx me md ms) v = Inl err
     \<Longrightarrow> py_float parse (dict_get d ''minimum'') = Inl err"
  by (auto simp add: check_minimum_full split: sum.splits)

lemma check_maximum_raises:
  "check_maximum parse (user_stats_of d) (full_snapshot n mn mx me md ms) v = Inl err
     \<Longrightarrow> py_float parse (dict_get d ''maximum'') = Inl err"
  by (auto simp add: check_maximum_full split: sum.splits)

lemma check_mean_raises:
  "check_mean parse (user_stats_of d) (full_snapshot n mn mx me md ms) v = Inl err
     \<Longrightarrow> py_float parse (dict_get d ''mean'') = Inl err \<or> format_2f (dict_get d ''mean'') = Inl err"
  by (auto simp add: check_mean_full bindE_Inl_iff split: sum.splits if_splits)

lemma check_median_raises:
  "check_median parse (user_stats_of d) (full_snapshot n mn mx me md ms) v = Inl err
     \<Longrightarrow> py_float parse (dict_get d ''median'') = Inl err"
  by (auto simp add: check_median_full split: sum.splits)

lemma check_mode_raises:
  "check_mode parse (user_stats_of d) (full_snapshot n mn mx me md ms) v = Inl err
     \<Longrightarrow> py_float parse (dict_get d ''mode'') = Inl err"
  by (auto simp add: check_mode_full split: sum.splits)

lemma validate_raises:
  assumes "validate parse (user_stats_of d) (full_snapshot n mn mx me md ms) = Inl err"
  shows "list_ex (\<lambda>f. py_float parse (dict_get d f) = Inl err) float_fields
         \<or> format_2f (dict_get d ''mean'') = Inl err"
proof -
  from assms have
    "py_float parse (dict_get d ''minimum'') = Inl err
     \<or> py_float parse (dict_get d ''maximum'') = Inl err
     \<or> (py_float parse (dict_get d ''mean'') = Inl err \<or> format_2f (dict_get d ''mean'') = Inl err)
     \<or> py_float parse (dict_get d ''median'') = Inl err
     \<or> py_float parse (dict_get d ''mode'') = Inl err"
    unfolding validate_def bindE_Inl_iff
    using check_count_raises check_minimum_raises check_maximum_raises check_mean_raises
      check_median_raises check_mode_raises
    by metis
  then show ?thesis by (auto simp: float_fields_def)
qed

text \<open>
  Claim C10.  Every challenge in a store the service can reach was built from a dataset
  of 5 to 15 ints between 1 and 100, and its ground truth is the snapshot of that
  dataset, with floats for minimum, maximum, mean and median and a non-empty list of
  modes.  Consequently the comparison never meets an absent ground-truth value: whenever
  it raises, the exception is the one raised by \<^verbatim>\<open>float\<close> on a submitted field or by
  formatting the submitted mean.
\<close>

theorem ground_truth_present:
  assumes "reachable s" and "s k = Some c"
  shows "good_challenge c
       \<and> (\<forall>parse d err. validate parse (user_stats_of d) (correct_stats c) = Inl err \<longrightarrow>
            list_ex (\<lambda>f. py_float parse (dict_get d f) = Inl err) float_fields
            \<or> format_2f (dict_get d ''mean'') = Inl err)"
proof -
  from reachable_good[OF assms] have g: "good_challenge c" by simp
  then obtain mn mx me md ms where
    "correct_stats c = full_snapshot (int (length (numbers_y c))) (Fin mn) (Fin mx) (Fin me) (Fin md) ms"
    by (auto simp: good_challenge_def)
  then show ?thesis using g validate_raises by simp
qed

lemma example_store_k1: "\<exists>c. example_store ''k1'' = Some c"
  using step1_issue[of "''user@example.com''" example_entropy "''k1''" no_challenges]
  by (auto simp: example_store_def)

theorem ground_truth_present_witness:
  "good_challenge (the (example_store ''k1''))"
proof -
  have r: "reachable example_store"
    unfolding example_store_def by (intro reachable.issue reachable.start)
  from example_store_k1 have "example_store ''k1'' = Some (the (example_store ''k1''))"
    by auto
  from ground_truth_present[OF r this] show ?thesis by simp
qed

subsection \<open>Counting attempts\<close>

lemma step2_counts:
  assumes "well_formed d k" "s k = Some c" "step2_attempts c < MAX_STEP2_ATTEMPTS"
  shows "\<exists>c'. snd (step2_submit_statistics parse (Parsed (JObj d)) s) k = Some c'
            \<and> step2_attempts c' = step2_attempts c + 1"
  by (auto simp add: step2_attempt[where challenges_data = s, OF assms] split: sum.splits)

lemma submit_all_counts:
  assumes "\<forall>d \<in> set ds. well_formed d k" "s k = Some c"
    and "step2_attempts c + int (length ds) \<le> MAX_STEP2_ATTEMPTS"
  shows "\<exists>c'. snd (submit_all parse (map (\<lambda>d. Parsed (JObj d)) ds) s) k = Some c'
            \<and> step2_attempts c' = step2_attempts c + int (length ds)"
  using assms
proof (induction ds arbitrary: s c)
  case Nil
  then show ?case by simp
next
  case (Cons d ds)
  have wf: "well_formed d k" using Cons.prems(1) by simp
  have lt: "step2_attempts c < MAX_STEP2_ATTEMPTS" using Cons.prems(3) by simp
  from step2_counts[where s = s, OF wf Cons.prems(2) lt, of parse] obtain c1 where
    c1: "snd (step2_submit_statistics parse (Parsed (JObj d)) s) k = Some c1"
      "step2_attempts c1 = step2_attempts c + 1"
    by blast
  have "\<forall>d \<in> set ds. well_formed d k" using Cons.prems(1) by simp
  moreover have "step2_attempts c1 + int (length ds) \<le> MAX_STEP2_ATTEMPTS"
    using Cons.prems(3) c1(2) by simp
  ultimately obtain c' where
    "snd (submit_all parse (map (\<lambda>d. Parsed (JObj d)) ds)
            (snd (step2_submit_statistics parse (Parsed (JObj d)) s))) k = Some c'"
    "step2_attempts c' = step2_attempts c1 + int (length ds)"
    using Cons.IH[where s = "snd (step2_submit_statistics parse (Parsed (JObj d)) s)", OF _ c1(1)]
    by blast
  then show ?case
    using c1(2) by (auto simp: split_beta Let_def)
qed

text \<open>
  Claim C4.  Issuance stores the challenge with the attempt counter 0, and after \<open>k\<close>
  well-formed submissions against its key, \<open>k\<close> below the limit, the counter is \<open>k\<close>,
  whatever the submissions hold: correct, incorrect, or values the comparison raises on.
\<close>

theorem attempt_counting:
  assumes "e \<noteq> []" and "\<forall>d \<in> set ds. well_formed d key"
    and "int (length ds) < MAX_STEP2_ATTEMPTS"
  shows "map_option step2_attempts (snd (step1_get_challenge (Some e) key rnd s0) key) = Some 0
       \<and> map_option step2_attempts
           (snd (submit_all parse (map (\<lambda>d. Parsed (JObj d)) ds)
                   (snd (step1_get_challenge (Some e) key rnd s0))) key)
         = Some (int (length ds))"
proof -
  let ?s = "snd (step1_get_challenge (Some e) key rnd s0)"
  from step1_issue[OF assms(1), of rnd key s0] obtain c where
    c: "?s key = Some c" "step2_attempts c = 0"
    by force
  have "step2_attempts c + int (length ds) \<le> MAX_STEP2_ATTEMPTS"
    using assms(3) c(2) by simp
  from submit_all_counts[where s = ?s, OF assms(2) c(1) this, of parse] c
  show ?thesis by auto
qed

theorem attempt_counting_witness:
  "map_option step2_attempts
     (snd (submit_all parse_nothing
             [Parsed (JObj (example_payload (JInt 18) 20)), Parsed (JObj wrong_payload)]
             example_store) ''k1'')
   = Some 2"
proof -
  have 1: "''user@example.com'' \<noteq> []" by simp
  have 2: "\<forall>d \<in> set [example_payload (JInt 18) 20, wrong_payload]. well_formed d ''k1''"
    by (simp add: well_formed_example well_formed_wrong)
  have 3: "int (length [example_payload (JInt 18) 20, wrong_payload]) < MAX_STEP2_ATTEMPTS"
    by (simp add: MAX_STEP2_ATTEMPTS_def)
  from attempt_counting[OF 1 2 3, of example_entropy no_challenges parse_nothing]
  show ?thesis by (simp add: example_store_def)
qed

subsection \<open>What the responses carry\<close>

text \<open>
  The response to an issuance holds the secret key and the dataset and nothing else.  A
  submission that the comparison judges incorrect, running to its end, is answered with
  one fixed message and status 400, whatever the ground truth and the mismatches found.
\<close>

lemma issuance_and_failure_responses:
  assumes "e \<noteq> []"
    and "well_formed d1 k1" and "s1 k1 = Some c1" and "step2_attempts c1 < MAX_STEP2_ATTEMPTS"
    and "incorrect_payload parse d1 (correct_stats c1)"
    and "well_formed d2 k2" and "s2 k2 = Some c2" and "step2_attempts c2 < MAX_STEP2_ATTEMPTS"
    and "incorrect_payload parse d2 (correct_stats c2)"
  shows "fst (step1_get_challenge (Some e) key rnd s0) =
           Response (JObj [(''secret_key'', JStr key),
                           (''numbers'', JArr (map JInt (drawn_numbers rnd)))]) 200
       \<and> fst (step2_submit_statistics parse (Parsed (JObj d1)) s1) =
           Response (JObj [(''message'', JStr ''Please try again!!!'')]) 400
       \<and> fst (step2_submit_statistics parse (Parsed (JObj d2)) s2) =
           fst (step2_submit_statistics parse (Parsed (JObj d1)) s1)"
proof -
  from step1_issue[OF assms(1), of rnd key s0]
  have "fst (step1_get_challenge (Some e) key rnd s0) =
           Response (JObj [(''secret_key'', JStr key),
                           (''numbers'', JArr (map JInt (drawn_numbers rnd)))]) 200"
    by force
  then show ?thesis
    by (simp add: step2_incorrect[where challenges_data = s1, OF assms(2,3,4,5)]
        step2_incorrect[where challenges_data = s2, OF assms(6,7,8,9)] message_def)
qed

lemma wrong_incorrect_other:
  "incorrect_payload parse wrong_payload
     (full_snapshot 7 (Fin 10) (Fin 25) (Fin 18) (Fin 20) [Fin 15, Fin 20])"
  by (simp add: incorrect_payload_def validate_defs user_stats_of_def wrong_payload_def
      dict_get_def full_snapshot_def float_of_int_exact isclose_def)

lemma same_failure_response_example:
  "fst (step2_submit_statistics parse_nothing (Parsed (JObj wrong_payload))
          (no_challenges(''k1'' \<mapsto> other_challenge)))
     = fst (step2_submit_statistics parse_nothing (Parsed (JObj wrong_payload))
              (no_challenges(''k1'' \<mapsto> example_challenge 0 None)))
   \<and> correct_stats other_challenge \<noteq> correct_stats (example_challenge 0 None)"
proof -
  have e: "''user@example.com'' \<noteq> []" by simp
  have k1: "(no_challenges(''k1'' \<mapsto> example_challenge 0 None)) ''k1''
              = Some (example_challenge 0 None)"
    by simp
  have n1: "step2_attempts (example_challenge 0 None) < MAX_STEP2_ATTEMPTS"
    by (simp add: example_challenge_def MAX_STEP2_ATTEMPTS_def)
  have i1: "incorrect_payload parse_nothing wrong_payload (correct_stats (example_challenge 0 None))"
    by (simp add: incorrect_payload_def example_challenge_def validate_wrong)
  have k2: "(no_challenges(''k1'' \<mapsto> other_challenge)) ''k1'' = Some other_challenge"
    by simp
  have n2: "step2_attempts other_challenge < MAX_STEP2_ATTEMPTS"
    by (simp add: other_challenge_def MAX_STEP2_ATTEMPTS_def)
  have i2: "incorrect_payload parse_nothing wrong_payload (correct_stats other_challenge)"
    by (simp add: other_challenge_def wrong_incorrect_other)
  have d: "correct_stats other_challenge \<noteq> correct_stats (example_challenge 0 None)"
    by (simp add: other_challenge_def example_challenge_def example_stats_def full_snapshot_def)
  from issuance_and_failure_responses[where ?s1.0 = "no_challenges(''k1'' \<mapsto> example_challenge 0 None)"
      and ?s2.0 = "no_challenges(''k1'' \<mapsto> other_challenge)" and parse = parse_nothing,
      OF e well_formed_wrong k1 n1 i1 well_formed_wrong k2 n2 i2]
  show ?thesis using d by simp
qed

subsection \<open>Values that are not close\<close>

lemma rdv_pow2:
  assumes "- 1022 \<le> e"
  shows "rdv (pow2 e) = pow2 e"
proof -
  have "ilog2 (pow2 e) = e"
    by (rule ilog2_unique) (simp_all add: pow2_less_iff)
  moreover have "\<bar>pow2 e\<bar> = pow2 e"
    using pow2_pos[of e] by linarith
  ultimately have u: "ulp (pow2 e) = pow2 (e - 52)"
    using assms by (simp add: ulp_def dexp_def)
  have "of_int (2 ^ 52) * ulp (pow2 e) = pow2 52 * pow2 (e - 52)"
    by (simp add: u pow2_nat)
  also have "\<dots> = pow2 e"
    using pow2_add[of 52 "e - 52"] by simp
  finally have "pow2 e = of_int (2 ^ 52) * ulp (pow2 e)"
    by (rule sym)
  then show ?thesis by (rule rdv_exact)
qed

lemma round_double_small:
  assumes "\<bar>x\<bar> \<le> pow2 (- 1)"
  shows "\<exists>y. round_double x = Fin y \<and> \<bar>y\<bar> \<le> pow2 (- 1)"
proof -
  have "rdv x \<le> rdv (pow2 (- 1))" using assms by (intro rdv_mono) simp
  then have h: "rdv x \<le> pow2 (- 1)" by (simp add: rdv_pow2)
  have "rdv (- pow2 (- 1)) \<le> rdv x" using assms by (intro rdv_mono) simp
  then have l: "- pow2 (- 1) \<le> rdv x" by (simp add: rdv_neg rdv_pow2)
  have "pow2 (- 1) < pow2 1024" by (simp add: pow2_less_iff)
  then have "\<not> pow2 1024 \<le> \<bar>rdv x\<bar>" using l h by linarith
  then show ?thesis using l h by (simp add: round_double_rdv abs_le_iff)
qed

lemma round_double_apart:
  assumes "1 \<le> \<bar>x\<bar>" "\<bar>x\<bar> \<le> 2000"
  shows "\<exists>y. round_double x = Fin y \<and> 1 \<le> \<bar>y\<bar>"
proof (cases "0 \<le> x")
  case True
  from round_double_between[of 1 x 2000] assms True show ?thesis by auto
next
  case False
  from round_double_between[of "- 2000" x "- 1"] assms False show ?thesis by auto
qed

lemma tol_1e9_small: "\<exists>t. tol_1e9 = Fin t \<and> 0 \<le> t \<and> t \<le> pow2 (- 20)"
proof -
  let ?x = "1 / 1000000000 :: rat"
  have "?x \<le> pow2 (- 20)" by (simp add: pow2_def)
  then have "rdv ?x \<le> rdv (pow2 (- 20))" by (rule rdv_mono)
  then have h: "rdv ?x \<le> pow2 (- 20)" by (simp add: rdv_pow2)
  have l: "0 \<le> rdv ?x" by (rule rdv_nonneg) simp
  have "pow2 (- 20) < pow2 1024" by (simp add: pow2_less_iff)
  then have "\<not> pow2 1024 \<le> \<bar>rdv ?x\<bar>" using l h by linarith
  then show ?thesis using l h by (simp add: tol_1e9_def round_double_rdv)
qed

text \<open>
  Two values of magnitude at most 1000 that differ by at least 1 are not close under
  the tolerances of the mean and median checks.
\<close>

lemma isclose_apart:
  assumes "1 \<le> \<bar>b - a\<bar>" "\<bar>a\<bar> \<le> 1000" "\<bar>b\<bar> \<le> 1000"
  shows "\<not> isclose (Fin a) (Fin b) tol_1e9 tol_1e9"
proof -
  from tol_1e9_small obtain t where t: "tol_1e9 = Fin t" "0 \<le> t" "t \<le> pow2 (- 20)"
    by blast
  have p: "pow2 (- 20) * 1000 \<le> pow2 (- 1)" "pow2 (- 20) < 1" "pow2 (- 1) < 1"
    by (simp_all add: pow2_def)
  have "\<bar>b - a\<bar> \<le> 2000" using assms(2,3) by linarith
  from round_double_apart[OF assms(1) this] obtain d where
    d: "round_double (b - a) = Fin d" "1 \<le> \<bar>d\<bar>"
    by blast
  have small: "\<bar>t * c\<bar> \<le> pow2 (- 1)" if "\<bar>c\<bar> \<le> 1000" for c
  proof -
    have "\<bar>t * c\<bar> = t * \<bar>c\<bar>" using t(2) by (simp add: abs_mult)
    also have "\<dots> \<le> pow2 (- 20) * 1000"
      using t(2,3) that by (intro mult_mono) simp_all
    finally show ?thesis using p(1) by linarith
  qed
  from round_double_small[OF small[OF assms(3)]] obtain y1 where
    y1: "round_double (t * b) = Fin y1" "\<bar>y1\<bar> \<le> pow2 (- 1)"
    by blast
  from round_double_small[OF small[OF assms(2)]] obtain y2 where
    y2: "round_double (t * a) = Fin y2" "\<bar>y2\<bar> \<le> pow2 (- 1)"
    by blast
  have "a \<noteq> b" using assms(1) by auto
  moreover have "\<not> \<bar>d\<bar> \<le> \<bar>y1\<bar>" "\<not> \<bar>d\<bar> \<le> \<bar>y2\<bar>" "\<not> \<bar>d\<bar> \<le> t"
    using d(2) y1(2) y2(2) t(3) p(2,3) by linarith+
  ultimately show ?thesis
    by (simp add: isclose_def t(1) d(1) y1(1) y2(1))
qed

lemma isclose_same: "isclose (Fin a) (Fin a) rel_tol abs_tol"
  by (simp add: isclose_def)

lemma example_snapshot: "calculate_statistics [10, 20, 15, 20, 25] = Inr example_stats"
  by (simp add: calculate_statistics_def py_min_def py_max_def statistics_mean_def
      statistics_median_def Counter_def bindE_def float_of_int_exact example_stats_def)

lemma mean_challenge_snapshot:
  "calculate_statistics (numbers_y mean_challenge) = Inr (correct_stats mean_challenge)"
  by (simp add: mean_challenge_def calculate_statistics_def py_min_def py_max_def
      statistics_mean_def statistics_median_def Counter_def bindE_def float_of_int_exact
      full_snapshot_def)

lemma well_formed_string_mean: "well_formed string_mean_payload ''k1''"
  by (simp add: well_formed_def string_mean_payload_def dict_get_def stat_fields_def)

lemma validate_string_mean_raises:
  "validate parse_seventeen (user_stats_of string_mean_payload) example_stats = Inl ValueError"
proof -
  have "\<not> isclose (Fin 17) (Fin 18) tol_1e9 tol_1e9"
    by (rule isclose_apart) simp_all
  then show ?thesis
    by (simp add: validate_defs user_stats_of_def string_mean_payload_def dict_get_def
        example_stats_def float_of_int_exact isclose_same parse_seventeen_def)
qed

lemma validate_string_mean_fails:
  "validate parse_seventeen (user_stats_of string_mean_payload)
     (full_snapshot 5 (Fin 10) (Fin 25) (Fin 17) (Fin 15) [Fin 15])
   = Inr (False, [''Count mismatch'', ''Median mismatch''])"
proof -
  have "\<not> isclose (Fin 20) (Fin 15) tol_1e9 tol_1e9"
    by (rule isclose_apart) simp_all
  then show ?thesis
    by (simp add: validate_defs user_stats_of_def string_mean_payload_def dict_get_def
        full_snapshot_def float_of_int_exact isclose_same parse_seventeen_def)
qed

text \<open>
  Claim C6 says that the response to a failed comparison is one fixed message, the same
  for any two ground truths.  The code does not keep to it.  The submission below, with
  a wrong count and the string \<^verbatim>\<open>17\<close> as its mean, fails on both of two challenges.
  Against the ground-truth mean 18.0 its mean mismatches, the description of the mismatch
  formats the submitted mean with \<^verbatim>\<open>:.2f\<close>, which raises \<^verbatim>\<open>ValueError\<close> on a string,
  and the request ends in an unhandled exception; against the ground-truth mean 17.0 it
  is answered with the fixed message and status 400.  In both cases the attempt is
  counted.
\<close>

theorem failure_response_varies:
  "step2_submit_statistics parse_seventeen (Parsed (JObj string_mean_payload))
     (no_challenges(''k1'' \<mapsto> example_challenge 0 None))
   = (Unhandled ValueError, no_challenges(''k1'' \<mapsto> example_challenge 1 None))
   \<and> step2_submit_statistics parse_seventeen (Parsed (JObj string_mean_payload))
     (no_challenges(''k1'' \<mapsto> mean_challenge))
   = (Response (JObj [(''message'', JStr ''Please try again!!!'')]) 400,
      no_challenges(''k1'' \<mapsto> mean_challenge\<lparr>step2_attempts := 1\<rparr>))"
proof -
  have k1: "(no_challenges(''k1'' \<mapsto> c)) ''k1'' = Some c" for c
    by simp
  have n1: "step2_attempts (example_challenge 0 None) < MAX_STEP2_ATTEMPTS"
    by (simp add: example_challenge_def MAX_STEP2_ATTEMPTS_def)
  have n2: "step2_attempts mean_challenge < MAX_STEP2_ATTEMPTS"
    by (simp add: mean_challenge_def MAX_STEP2_ATTEMPTS_def)
  have a: "step2_submit_statistics parse_seventeen (Parsed (JObj string_mean_payload))
       (no_challenges(''k1'' \<mapsto> example_challenge 0 None))
     = (Unhandled ValueError, no_challenges(''k1'' \<mapsto> example_challenge 1 None))"
    using step2_attempt[where challenges_data = "no_challenges(''k1'' \<mapsto> example_challenge 0 None)"
        and parse = parse_seventeen, OF well_formed_string_mean k1 n1]
    by (simp add: example_challenge_def validate_string_mean_raises)
  have b: "step2_submit_statistics parse_seventeen (Parsed (JObj string_mean_payload))
       (no_challenges(''k1'' \<mapsto> mean_challenge))
     = (Response (JObj [(''message'', JStr ''Please try again!!!'')]) 400,
        no_challenges(''k1'' \<mapsto> mean_challenge\<lparr>step2_attempts := 1\<rparr>))"
    using step2_attempt[where challenges_data = "no_challenges(''k1'' \<mapsto> mean_challenge)"
        and parse = parse_seventeen, OF well_formed_string_mean k1 n2]
    by (simp add: mean_challenge_def validate_string_mean_fails message_def)
  from a b show ?thesis by simp
qed

text \<open>
  Both challenges are ones the service can hold, their ground truth being the snapshot of
  their dataset, and the two responses to the one submission are the unhandled exception
  and the fixed message.
\<close>

theorem failure_response_varies_witness:
  "calculate_statistics (numbers_y (example_challenge 0 None))
     = Inr (correct_stats (example_challenge 0 None))
   \<and> calculate_statistics (numbers_y mean_challenge) = Inr (correct_stats mean_challenge)
   \<and> fst (step2_submit_statistics parse_seventeen (Parsed (JObj string_mean_payload))
            (no_challenges(''k1'' \<mapsto> example_challenge 0 None)))
     = Unhandled ValueError
   \<and> fst (step2_submit_statistics parse_seventeen (Parsed (JObj string_mean_payload))
            (no_challenges(''k1'' \<mapsto> mean_challenge)))
     = Response (JObj [(''message'', JStr ''Please try again!!!'')]) 400"
proof -
  have e: "calculate_statistics (numbers_y (example_challenge 0 None))
             = Inr (correct_stats (example_challenge 0 None))"
    using example_snapshot by (simp add: example_challenge_def)
  from e mean_challenge_snapshot failure_response_varies show ?thesis
    by simp
qed

end
